theory Spec2Isabelle
  imports Main
begin

section \<open>Conventions of the embedding\<close>

text \<open>
  The repository is a Next.js backend written in TypeScript. Every handler and helper is
  embedded as a HOL function over an explicit state:
  \<^item> a \<^verbatim>\<open>Date\<close> is its \<^verbatim>\<open>getTime()\<close> value, an \<open>int\<close> of milliseconds; one request reads
    the clock once (\<open>now\<close>);
  \<^item> a table of the store is the list of its rows, \<^verbatim>\<open>findUnique\<close>/\<^verbatim>\<open>findFirst\<close> return the
    first matching row, \<^verbatim>\<open>update\<close>/\<^verbatim>\<open>updateMany\<close> rewrite every matching row;
  \<^item> a function that can throw returns \<open>exn + 'a\<close> (\<open>Inl\<close> is the exception), and a
    \<^verbatim>\<open>try { } catch { }\<close> is a case distinction on that sum;
  \<^item> the external libraries (bcryptjs, jsonwebtoken, nanoid, zod) are parameters: the
    theorems hold for every behaviour of theirs;
  \<^item> a value that may be \<^verbatim>\<open>undefined\<close>/\<^verbatim>\<open>null\<close> is an \<open>option\<close>; the empty string is falsy,
    as in JavaScript;
  \<^item> numbers are integers (counters, limits and timestamps are integral wherever the
    code produces them);
  \<^item> a store call does not throw, except in the forgot-password handler, whose answer to
    a throwing store call is part of what is proved about it; where a handler can reach
    its \<^verbatim>\<open>catch\<close> by an exception of the code's own (a missing row, a malformed
    duration, a token lifetime that jsonwebtoken refuses, an invalid date handed to the
    store), that branch is modelled.
\<close>

type_synonym date = int

datatype exn =
    Error string
  | TypeError string
  | JsonWebTokenError string
  | TokenExpiredError
  | PrismaError string

text \<open>\<^verbatim>\<open>a || b\<close> on optional strings: \<^verbatim>\<open>undefined\<close>, \<^verbatim>\<open>null\<close> and \<^verbatim>\<open>''\<close> are falsy.\<close>

definition truthy :: "string option \<Rightarrow> bool" where
  "truthy a = (case a of None \<Rightarrow> False | Some s \<Rightarrow> s \<noteq> [])"

definition js_or :: "string option \<Rightarrow> string option \<Rightarrow> string option" where
  "js_or a b = (if truthy a then a else b)"

definition js_or_default :: "string option \<Rightarrow> string \<Rightarrow> string" where
  "js_or_default a d = (case a of None \<Rightarrow> d | Some s \<Rightarrow> if s = [] then d else s)"

section \<open>Rate limiter (rateLimit, src/lib/utils/api.ts)\<close>

record rate_record =
  count :: int
  resetAt :: int

type_synonym rate_store = "string \<Rightarrow> rate_record option"

text \<open>
  \<^verbatim>\<open>rateLimit(key, limit, windowMs)\<close> over the module-level \<^verbatim>\<open>rateLimitStore\<close>; the store is
  passed in and returned, \<open>now\<close> is \<^verbatim>\<open>Date.now()\<close>.
\<close>

definition rateLimit :: "rate_store \<Rightarrow> int \<Rightarrow> string \<Rightarrow> int \<Rightarrow> int \<Rightarrow> bool \<times> rate_store" where
  "rateLimit store now key limit windowMs =
     (case store key of
        None \<Rightarrow> (True, store(key \<mapsto> \<lparr>count = 1, resetAt = now + windowMs\<rparr>))
      | Some record \<Rightarrow>
          if resetAt record < now
          then (True, store(key \<mapsto> \<lparr>count = 1, resetAt = now + windowMs\<rparr>))
          else if count record \<ge> limit then (False, store)
          else (True, store(key \<mapsto> record\<lparr>count := count record + 1\<rparr>)))"

text \<open>A run of calls for one key, limit and window at the given clock readings.\<close>

fun rateLimit_calls :: "rate_store \<Rightarrow> string \<Rightarrow> int \<Rightarrow> int \<Rightarrow> int list \<Rightarrow> bool list \<times> rate_store" where
  "rateLimit_calls store key limit windowMs [] = ([], store)"
| "rateLimit_calls store key limit windowMs (now # nows) =
     (let (allowed, store') = rateLimit store now key limit windowMs;
          (rest, store'') = rateLimit_calls store' key limit windowMs nows
      in (allowed # rest, store''))"

definition allowed_count :: "bool list \<Rightarrow> nat" where
  "allowed_count rs = length (filter (\<lambda>r. r) rs)"

section \<open>Entitlements (hasFeature of lib/prisma, found in src/app/(auth)/login/page.tsx)\<close>

text \<open>
  Prisma enums (\<^verbatim>\<open>SubscriptionPlan\<close>, \<^verbatim>\<open>OrganizationStatus\<close>, \<^verbatim>\<open>UserRole\<close>) are strings at run
  time, and \<^verbatim>\<open>hasFeature\<close> looks its plan up with \<^verbatim>\<open>features[plan]\<close>, so plans are strings
  here. The own properties of the object literal \<^verbatim>\<open>features\<close>:
\<close>

definition features :: "(string \<times> string list) list" where
  "features =
    [(''FREE'', [''basic_diet_plans'', ''patient_management'']),
     (''STARTER'',
        [''basic_diet_plans'', ''patient_management'', ''ai_diet_plans'', ''appointments'',
         ''messaging'']),
     (''PROFESSIONAL'',
        [''basic_diet_plans'', ''patient_management'', ''ai_diet_plans'', ''appointments'',
         ''messaging'', ''video_consultation'', ''white_label'', ''custom_domain'',
         ''advanced_reports'']),
     (''ENTERPRISE'',
        [''basic_diet_plans'', ''patient_management'', ''ai_diet_plans'', ''appointments'',
         ''messaging'', ''video_consultation'', ''white_label'', ''custom_domain'',
         ''advanced_reports'', ''api_access'', ''priority_support'', ''custom_integrations''])]"

text \<open>
  An object literal inherits from \<^verbatim>\<open>Object.prototype\<close>: a lookup of one of these names
  finds a function (or, for \<^verbatim>\<open>__proto__\<close>, the prototype object), not \<^verbatim>\<open>undefined\<close>.
\<close>

definition Object_prototype_properties :: "string list" where
  "Object_prototype_properties =
    [''constructor'', ''__defineGetter__'', ''__defineSetter__'', ''hasOwnProperty'',
     ''__lookupGetter__'', ''__lookupSetter__'', ''isPrototypeOf'', ''propertyIsEnumerable'',
     ''toString'', ''valueOf'', ''__proto__'', ''toLocaleString'']"

datatype js_value = Undefined | StringArray "string list" | InheritedObject

text \<open>\<^verbatim>\<open>features[plan]\<close>: own properties first, then the prototype.\<close>

definition features_get :: "string \<Rightarrow> js_value" where
  "features_get plan =
     (case map_of features plan of
        Some a \<Rightarrow> StringArray a
      | None \<Rightarrow> if plan \<in> set Object_prototype_properties then InheritedObject else Undefined)"

text \<open>
  \<^verbatim>\<open>return features[plan]?.includes(feature) || false\<close>. The optional chain stops at an
  \<^verbatim>\<open>undefined\<close> base only; on a base without an \<^verbatim>\<open>includes\<close> method the call throws.
\<close>

definition hasFeature :: "string \<Rightarrow> string \<Rightarrow> exn + bool" where
  "hasFeature plan feature =
     (case features_get plan of
        Undefined \<Rightarrow> Inr False
      | StringArray a \<Rightarrow> Inr (feature \<in> set a \<or> False)
      | InheritedObject \<Rightarrow> Inl (TypeError ''features[plan]?.includes is not a function''))"

text \<open>The order of the plans, lowest first, as the specification gives it.\<close>

definition plan_order :: "string list" where
  "plan_order = [''FREE'', ''STARTER'', ''PROFESSIONAL'', ''ENTERPRISE'']"

definition known_features :: "string list" where
  "known_features = concat (map snd features)"

section \<open>Tokens (src/lib/utils/jwt.ts)\<close>

record token_payload =
  tp_userId :: string
  tp_email :: string
  tp_role :: string
  tp_organizationId :: string

text \<open>
  The libraries and the process environment. \<open>sign\<close> and \<open>verify\<close> are jsonwebtoken's
  (payload or token, secret, and the clock they read); both can throw, \<open>sign\<close> for one on
  an \<^verbatim>\<open>expiresIn\<close> that is not a time span. \<open>compare\<close> and \<open>hash\<close> are bcryptjs's;
  \<open>getFullYear\<close> and \<open>getMonth\<close> are the \<^verbatim>\<open>Date\<close> accessors in the local time zone.
\<close>

record env =
  sign :: "token_payload \<Rightarrow> string \<Rightarrow> string \<Rightarrow> date \<Rightarrow> exn + string"
  verify :: "string \<Rightarrow> string \<Rightarrow> date \<Rightarrow> exn + token_payload"
  compare :: "string \<Rightarrow> string \<Rightarrow> bool"
  hash :: "string \<Rightarrow> nat \<Rightarrow> string"
  getFullYear :: "date \<Rightarrow> int"
  getMonth :: "date \<Rightarrow> int"
  env_JWT_SECRET :: "string option"
  env_JWT_EXPIRES_IN :: "string option"
  env_REFRESH_TOKEN_EXPIRES_IN :: "string option"

definition JWT_SECRET :: "env \<Rightarrow> string" where
  "JWT_SECRET e = js_or_default (env_JWT_SECRET e) ''your-secret-key''"

definition JWT_EXPIRES_IN :: "env \<Rightarrow> string" where
  "JWT_EXPIRES_IN e = js_or_default (env_JWT_EXPIRES_IN e) ''7d''"

definition REFRESH_TOKEN_EXPIRES_IN :: "env \<Rightarrow> string" where
  "REFRESH_TOKEN_EXPIRES_IN e = js_or_default (env_REFRESH_TOKEN_EXPIRES_IN e) ''30d''"

text \<open>
  \<^verbatim>\<open>return sign(payload, JWT_SECRET, { expiresIn: JWT_EXPIRES_IN })\<close>: what \<open>sign\<close> throws,
  \<^verbatim>\<open>generateAccessToken\<close> throws.
\<close>

definition generateAccessToken :: "env \<Rightarrow> date \<Rightarrow> token_payload \<Rightarrow> exn + string" where
  "generateAccessToken e now payload = sign e payload (JWT_SECRET e) (JWT_EXPIRES_IN e) now"

text \<open>\<^verbatim>\<open>try { return verify(token, JWT_SECRET) } catch (error) { return null }\<close>\<close>

definition verifyAccessToken :: "env \<Rightarrow> date \<Rightarrow> string \<Rightarrow> exn + token_payload option" where
  "verifyAccessToken e now token =
     (case verify e token (JWT_SECRET e) now of
        Inr decoded \<Rightarrow> Inr (Some decoded)
      | Inl error \<Rightarrow> Inr None)"

text \<open>
  \<^verbatim>\<open>getTokenExpiration\<close>: the argument matches \<^verbatim>\<open>/^(\d+)([dhms])$/\<close> when it is one or more
  decimal digits followed by one unit letter; \<^verbatim>\<open>parseInt\<close> reads the digits in base ten.
  \<^verbatim>\<open>new Date(t)\<close> is a date only for a time value of at most 8.64e15 milliseconds in
  absolute value; beyond that it is the \<^verbatim>\<open>Invalid Date\<close>, here \<open>None\<close>.
\<close>

definition new_Date :: "int \<Rightarrow> date option" where
  "new_Date t = (if \<bar>t\<bar> \<le> 8640000000000000 then Some t else None)"

definition is_digit :: "char \<Rightarrow> bool" where
  "is_digit c = (c \<in> set ''0123456789'')"

definition digit_value :: "char \<Rightarrow> int" where
  "digit_value c = int (of_char c) - 48"

definition parseInt :: "string \<Rightarrow> int" where
  "parseInt ds = foldl (\<lambda>acc c. 10 * acc + digit_value c) 0 ds"

definition getTokenExpiration :: "date \<Rightarrow> string \<Rightarrow> exn + date option" where
  "getTokenExpiration now expiresIn =
     (if expiresIn = [] \<or> butlast expiresIn = [] \<or> \<not> list_all is_digit (butlast expiresIn)
         \<or> last expiresIn \<notin> set ''dhms''
      then Inl (Error ''Invalid expiration format'')
      else
        let v = parseInt (butlast expiresIn); unit = last expiresIn in
        if unit = CHR ''d'' then Inr (new_Date (now + v * 24 * 60 * 60 * 1000))
        else if unit = CHR ''h'' then Inr (new_Date (now + v * 60 * 60 * 1000))
        else if unit = CHR ''m'' then Inr (new_Date (now + v * 60 * 1000))
        else if unit = CHR ''s'' then Inr (new_Date (now + v * 1000))
        else Inl (Error ''Invalid time unit''))"

definition getRefreshTokenExpiration :: "env \<Rightarrow> date \<Rightarrow> exn + date option" where
  "getRefreshTokenExpiration e now = getTokenExpiration now (REFRESH_TOKEN_EXPIRES_IN e)"

section \<open>The store\<close>

text \<open>
  The rows of the Prisma models, with the columns the embedded code reads or writes. The
  Prisma schema is not part of the sources; the column names are those the code uses.
\<close>

record user =
  user_id :: string
  user_email :: string
  user_password :: string
  user_firstName :: string
  user_lastName :: string
  user_role :: string
  user_avatar :: "string option"
  user_emailVerified :: bool
  user_organizationId :: string
  user_isActive :: bool
  user_failedLoginAttempts :: int
  user_lockedUntil :: "date option"
  user_resetPasswordToken :: "string option"
  user_resetPasswordExpires :: "date option"
  user_lastLoginAt :: "date option"
  user_lastLoginIp :: "string option"
  user_lastLoginBrowser :: "string option"
  user_lastLoginDevice :: "string option"
  user_lastLoginOs :: "string option"

record session =
  session_id :: string
  session_userId :: string
  session_refreshToken :: string
  session_accessToken :: string
  session_ipAddress :: string
  session_userAgent :: string
  session_browser :: string
  session_device :: string
  session_os :: string
  session_isValid :: bool
  session_expiresAt :: date
  session_lastActivityAt :: date

record organization =
  org_id :: string
  org_name :: string
  org_subdomain :: string
  org_status :: string
  org_plan :: string
  org_trialEndsAt :: "date option"
  org_maxUsers :: int
  org_maxPatients :: int
  org_maxStorage :: int
  org_maxAiQueries :: int
  org_currentUsers :: int
  org_currentPatients :: int
  org_currentStorage :: int
  org_currentAiQueries :: int
  org_aiQueriesResetAt :: date

datatype details =
    LoginFailedDetails int bool
  | LoginSuccessDetails string string string
  | ReasonDetails string
  | TokenExpiresDetails date
  | OtherSessionsInvalidated
  | SessionsInvalidated

record security_event =
  se_event :: string
  se_severity :: string
  se_userId :: string
  se_email :: string
  se_details :: details
  se_ipAddress :: string
  se_userAgent :: string
  se_blocked :: "bool option"

record audit_event =
  ae_userId :: string
  ae_action :: string
  ae_resource :: string
  ae_resourceId :: string
  ae_ipAddress :: string
  ae_userAgent :: string

text \<open>The whole state a request can touch: the tables and the in-process rate-limit map.\<close>

record world =
  users :: "user list"
  sessions :: "session list"
  organizations :: "organization list"
  securityLog :: "security_event list"
  adminAuditLog :: "audit_event list"
  rateLimitStore :: rate_store

definition find_user_by_email :: "user list \<Rightarrow> string \<Rightarrow> user option" where
  "find_user_by_email us e = find (\<lambda>u. user_email u = e) us"

definition find_user_by_id :: "user list \<Rightarrow> string \<Rightarrow> user option" where
  "find_user_by_id us i = find (\<lambda>u. user_id u = i) us"

definition update_user :: "user list \<Rightarrow> string \<Rightarrow> (user \<Rightarrow> user) \<Rightarrow> user list" where
  "update_user us i f = map (\<lambda>u. if user_id u = i then f u else u) us"

definition find_session_by_refreshToken :: "session list \<Rightarrow> string \<Rightarrow> session option" where
  "find_session_by_refreshToken ss t = find (\<lambda>s. session_refreshToken s = t) ss"

definition update_session :: "session list \<Rightarrow> string \<Rightarrow> (session \<Rightarrow> session) \<Rightarrow> session list" where
  "update_session ss i f = map (\<lambda>s. if session_id s = i then f s else s) ss"

definition updateMany_sessions ::
  "session list \<Rightarrow> (session \<Rightarrow> bool) \<Rightarrow> (session \<Rightarrow> session) \<Rightarrow> session list" where
  "updateMany_sessions ss p f = map (\<lambda>s. if p s then f s else s) ss"

definition find_organization :: "organization list \<Rightarrow> string \<Rightarrow> organization option" where
  "find_organization os i = find (\<lambda>g. org_id g = i) os"

definition update_organization ::
  "organization list \<Rightarrow> string \<Rightarrow> (organization \<Rightarrow> organization) \<Rightarrow> organization list" where
  "update_organization os i f = map (\<lambda>g. if org_id g = i then f g else g) os"

section \<open>Usage limits (lib/prisma, found in src/app/(auth)/login/page.tsx; src/lib/utils/api.ts)\<close>

datatype usage_type = Users | Patients | Storage | AiQueries

record usage =
  usage_exceeded :: bool
  usage_current :: int
  usage_max :: int

text \<open>The computed property names \<^verbatim>\<open>max${Type}\<close> and \<^verbatim>\<open>current${Type}\<close>.\<close>

fun maxField :: "usage_type \<Rightarrow> organization \<Rightarrow> int" where
  "maxField Users = org_maxUsers"
| "maxField Patients = org_maxPatients"
| "maxField Storage = org_maxStorage"
| "maxField AiQueries = org_maxAiQueries"

fun currentField :: "usage_type \<Rightarrow> organization \<Rightarrow> int" where
  "currentField Users = org_currentUsers"
| "currentField Patients = org_currentPatients"
| "currentField Storage = org_currentStorage"
| "currentField AiQueries = org_currentAiQueries"

fun increment_currentField :: "usage_type \<Rightarrow> int \<Rightarrow> organization \<Rightarrow> organization" where
  "increment_currentField Users n g = g\<lparr>org_currentUsers := org_currentUsers g + n\<rparr>"
| "increment_currentField Patients n g = g\<lparr>org_currentPatients := org_currentPatients g + n\<rparr>"
| "increment_currentField Storage n g = g\<lparr>org_currentStorage := org_currentStorage g + n\<rparr>"
| "increment_currentField AiQueries n g = g\<lparr>org_currentAiQueries := org_currentAiQueries g + n\<rparr>"

definition monthDiff :: "env \<Rightarrow> date \<Rightarrow> date \<Rightarrow> int" where
  "monthDiff e now resetDate =
     (getFullYear e now - getFullYear e resetDate) * 12 + (getMonth e now - getMonth e resetDate)"

definition checkUsageLimit ::
  "env \<Rightarrow> date \<Rightarrow> organization list \<Rightarrow> string \<Rightarrow> usage_type
     \<Rightarrow> exn + (usage \<times> organization list)" where
  "checkUsageLimit e now os organizationId ty =
     (case find_organization os organizationId of
        None \<Rightarrow> Inl (Error ''Organization not found'')
      | Some organization \<Rightarrow>
          if ty = AiQueries \<and> monthDiff e now (org_aiQueriesResetAt organization) \<ge> 1
          then Inr (\<lparr>usage_exceeded = False, usage_current = 0,
                      usage_max = org_maxAiQueries organization\<rparr>,
                    update_organization os organizationId
                      (\<lambda>g. g\<lparr>org_currentAiQueries := 0, org_aiQueriesResetAt := now\<rparr>))
          else Inr (\<lparr>usage_exceeded = currentField ty organization \<ge> maxField ty organization,
                      usage_current = currentField ty organization,
                      usage_max = maxField ty organization\<rparr>, os))"

text \<open>Prisma's \<^verbatim>\<open>update\<close> throws (code P2025) when no row matches.\<close>

definition incrementUsage ::
  "organization list \<Rightarrow> string \<Rightarrow> usage_type \<Rightarrow> int \<Rightarrow> exn + organization list" where
  "incrementUsage os organizationId ty amount =
     (case find_organization os organizationId of
        None \<Rightarrow> Inl (PrismaError ''P2025'')
      | Some _ \<Rightarrow> Inr (update_organization os organizationId (increment_currentField ty amount)))"

definition isTrialExpired :: "date \<Rightarrow> organization list \<Rightarrow> string \<Rightarrow> exn + bool" where
  "isTrialExpired now os organizationId =
     (case find_organization os organizationId of
        None \<Rightarrow> Inl (Error ''Organization not found'')
      | Some organization \<Rightarrow>
          if org_status organization \<noteq> ''TRIAL'' then Inr False
          else (case org_trialEndsAt organization of
                  None \<Rightarrow> Inr False
                | Some t \<Rightarrow> Inr (now > t)))"

section \<open>Requests and responses (src/lib/utils/api.ts)\<close>

text \<open>
  The messages of the responses. The Turkish texts of the source are named by their
  meaning; a message built from a template carries the interpolated numbers.
\<close>

datatype message =
    RateLimitExceeded
  | ValidationError
  | InvalidRequestBody
  | NoTokenProvided
  | UserNotFoundOrInactive
  | InvalidToken
  | UsageLimitExceeded int int
  | InvalidEmailOrPassword
  | AccountLocked int
  | TooManyFailedAttempts
  | InvalidEmailOrPasswordRemaining int
  | AccountSuspended
  | OrganizationSuspended
  | OrganizationCancelled
  | TrialExpired
  | LoginFailed
  | RefreshTokenRequired
  | InvalidRefreshToken
  | SessionInvalid
  | SessionExpired
  | UserNotActive
  | RefreshFailed
  | UserNotFound
  | CurrentPasswordWrong
  | NewPasswordSameAsCurrent
  | PasswordChanged
  | ChangePasswordFailed
  | ResetLinkSentIfRegistered
  | InvalidOrExpiredToken
  | PasswordReset
  | ResetPasswordFailed
  | LoggedOut
  | LoggedOutEverywhere

record user_summary =
  us_id :: string
  us_email :: string
  us_firstName :: string
  us_lastName :: string
  us_role :: string
  us_avatar :: "string option"
  us_emailVerified :: bool

record organization_summary =
  os_id :: string
  os_name :: string
  os_subdomain :: string
  os_status :: string

datatype data =
    MessageData message
  | LoginData string string user_summary organization_summary
  | AccessTokenData string

datatype json_body =
    SuccessBody data
  | ErrorBody message "(string \<times> string) list option"

record response =
  status :: nat
  json :: json_body
  cookies_set :: "(string \<times> string \<times> date option) list"
  cookies_deleted :: "string list"

definition successResponse :: "data \<Rightarrow> nat \<Rightarrow> response" where
  "successResponse d st =
     \<lparr>status = st, json = SuccessBody d, cookies_set = [], cookies_deleted = []\<rparr>"

definition errorResponse :: "message \<Rightarrow> nat \<Rightarrow> (string \<times> string) list option \<Rightarrow> response" where
  "errorResponse m st errors =
     \<lparr>status = st, json = ErrorBody m errors, cookies_set = [], cookies_deleted = []\<rparr>"

text \<open>
  What \<^verbatim>\<open>request.json()\<close> followed by the zod schema's \<^verbatim>\<open>parse\<close> gives: the validated
  data, a zod error with its field messages, or a body that is not JSON.
\<close>

datatype 'a parsed = Valid 'a | ZodError "(string \<times> string) list" | NotJson

record 'a request =
  header_x_forwarded_for :: "string option"
  header_user_agent :: "string option"
  header_authorization :: "string option"
  cookie_accessToken :: "string option"
  cookie_refreshToken :: "string option"
  body :: 'a

text \<open>
  What one request reads from its surroundings: the clock, the identifiers that nanoid
  and the store generate, and the result of \<^verbatim>\<open>getUserRegistrationInfo()\<close>.
\<close>

record user_info =
  ui_ip :: string
  ui_browser :: string
  ui_device :: string
  ui_os :: string
  ui_userAgent :: string

record ctx =
  ctx_now :: date
  ctx_nanoid :: string
  ctx_new_id :: string
  ctx_userInfo :: user_info

definition validateRequest :: "'a parsed \<Rightarrow> response + 'a" where
  "validateRequest b =
     (case b of
        Valid validatedData \<Rightarrow> Inr validatedData
      | ZodError formattedErrors \<Rightarrow> Inl (errorResponse ValidationError 400 (Some formattedErrors))
      | NotJson \<Rightarrow> Inl (errorResponse InvalidRequestBody 400 None))"

definition applyRateLimit ::
  "rate_store \<Rightarrow> date \<Rightarrow> string \<Rightarrow> int \<Rightarrow> int \<Rightarrow> response option \<times> rate_store" where
  "applyRateLimit store t identifier limit windowMs =
     (case rateLimit store t identifier limit windowMs of
        (allowed, store') \<Rightarrow>
          if \<not> allowed then (Some (errorResponse RateLimitExceeded 429 None), store')
          else (None, store'))"

record auth_user =
  au_id :: string
  au_email :: string
  au_role :: string
  au_organizationId :: string

text \<open>\<^verbatim>\<open>authHeader?.startsWith('Bearer ') ? authHeader.substring(7) : null\<close>\<close>

definition bearerToken :: "string option \<Rightarrow> string option" where
  "bearerToken authHeader =
     (case authHeader of
        None \<Rightarrow> None
      | Some h \<Rightarrow> if take 7 h = ''Bearer '' then Some (drop 7 h) else None)"

definition requireAuth :: "env \<Rightarrow> ctx \<Rightarrow> world \<Rightarrow> 'a request \<Rightarrow> response + auth_user" where
  "requireAuth e c w request =
     (case js_or (cookie_accessToken request) (bearerToken (header_authorization request)) of
        None \<Rightarrow> Inl (errorResponse NoTokenProvided 401 None)
      | Some token \<Rightarrow>
          if token = [] then Inl (errorResponse NoTokenProvided 401 None)
          else
            (case verify e token (JWT_SECRET e) (ctx_now c) of
               Inl error \<Rightarrow> Inl (errorResponse InvalidToken 401 None)
             | Inr decoded \<Rightarrow>
                 (case find_user_by_id (users w) (tp_userId decoded) of
                    None \<Rightarrow> Inl (errorResponse UserNotFoundOrInactive 401 None)
                  | Some u \<Rightarrow>
                      if \<not> user_isActive u
                      then Inl (errorResponse UserNotFoundOrInactive 401 None)
                      else Inr \<lparr>au_id = user_id u, au_email = user_email u,
                                au_role = user_role u,
                                au_organizationId = user_organizationId u\<rparr>)))"

definition checkAndIncrementUsage ::
  "env \<Rightarrow> date \<Rightarrow> organization list \<Rightarrow> string \<Rightarrow> usage_type \<Rightarrow> int
     \<Rightarrow> exn + (response option \<times> organization list)" where
  "checkAndIncrementUsage e t os organizationId ty amount =
     (case checkUsageLimit e t os organizationId ty of
        Inl error \<Rightarrow> Inl error
      | Inr (u, os') \<Rightarrow>
          if usage_exceeded u
          then Inr (Some (errorResponse (UsageLimitExceeded (usage_current u) (usage_max u)) 403 None),
                    os')
          else (case incrementUsage os' organizationId ty amount of
                  Inl error \<Rightarrow> Inl error
                | Inr os'' \<Rightarrow> Inr (None, os'')))"

text \<open>
  The monthly reset of the AI-query counter is due: the resource is \<^verbatim>\<open>aiQueries\<close> and the
  month index of now is at least one ahead of that of the stored reset date.
\<close>

definition reset_due :: "env \<Rightarrow> date \<Rightarrow> usage_type \<Rightarrow> organization \<Rightarrow> bool" where
  "reset_due e t ty g = (ty = AiQueries \<and> monthDiff e t (org_aiQueriesResetAt g) \<ge> 1)"

section \<open>Login (the second handler of src/unnamed/part_003)\<close>

definition MAX_LOGIN_ATTEMPTS :: int where
  "MAX_LOGIN_ATTEMPTS = 5"

definition LOCK_DURATION :: int where
  "LOCK_DURATION = 15 * 60 * 1000"

record login_data =
  ld_email :: string
  ld_password :: string
  ld_rememberMe :: "bool option"

text \<open>\<^verbatim>\<open>Math.ceil(a / b)\<close> on integers, for a positive \<open>b\<close>.\<close>

definition ceil_div :: "int \<Rightarrow> int \<Rightarrow> int" where
  "ceil_div a b = - ((- a) div b)"

text \<open>
  \<^verbatim>\<open>user.lockedUntil && user.lockedUntil > new Date()\<close>, with the minutes that the
  rejection reports: \<^verbatim>\<open>Math.ceil((user.lockedUntil.getTime() - Date.now()) / 60000)\<close>.
\<close>

definition account_locked :: "date \<Rightarrow> user \<Rightarrow> int option" where
  "account_locked t u =
     (case user_lockedUntil u of
        None \<Rightarrow> None
      | Some l \<Rightarrow> if l > t then Some (ceil_div (l - t) 60000) else None)"

text \<open>The branch \<^verbatim>\<open>if (!isPasswordValid)\<close>: count the failure, lock at the maximum, log it.\<close>

definition login_password_invalid ::
  "ctx \<Rightarrow> world \<Rightarrow> string \<Rightarrow> string option \<Rightarrow> user \<Rightarrow> response \<times> world" where
  "login_password_invalid c w ip userAgent u =
     (let failedAttempts = user_failedLoginAttempts u + 1;
          updates = (\<lambda>r. (if failedAttempts \<ge> MAX_LOGIN_ATTEMPTS
                           then r\<lparr>user_lockedUntil := Some (ctx_now c + LOCK_DURATION)\<rparr>
                           else r)\<lparr>user_failedLoginAttempts := failedAttempts\<rparr>);
          w' = w\<lparr>users := update_user (users w) (user_id u) updates,
                 securityLog := securityLog w @
                   [\<lparr>se_event = ''login.failed'',
                     se_severity = (if failedAttempts \<ge> MAX_LOGIN_ATTEMPTS then ''high'' else ''medium''),
                     se_userId = user_id u, se_email = user_email u,
                     se_details = LoginFailedDetails failedAttempts
                                    (failedAttempts \<ge> MAX_LOGIN_ATTEMPTS),
                     se_ipAddress = ip, se_userAgent = js_or_default userAgent [],
                     se_blocked = Some (failedAttempts \<ge> MAX_LOGIN_ATTEMPTS)\<rparr>]\<rparr>
      in if failedAttempts \<ge> MAX_LOGIN_ATTEMPTS
         then (errorResponse TooManyFailedAttempts 403 None, w')
         else (errorResponse (InvalidEmailOrPasswordRemaining (MAX_LOGIN_ATTEMPTS - failedAttempts))
                 401 None, w'))"

text \<open>The claims that \<^verbatim>\<open>generateAccessToken\<close> is given for a user, at login and at refresh.\<close>

definition token_payload_of :: "user \<Rightarrow> token_payload" where
  "token_payload_of u =
     \<lparr>tp_userId = user_id u, tp_email = user_email u, tp_role = user_role u,
      tp_organizationId = user_organizationId u\<rparr>"

text \<open>
  From \<^verbatim>\<open>// Get user info\<close> to the response: the tokens, the session row, the reset of
  the failure counter and of the lock, the log entry, the cookies. A new session row is
  valid and active from now on: these are the defaults of the Prisma schema, which is
  not part of the sources (the specification: the session manager inserts a new valid
  session row). An exception leaves through the handler's \<^verbatim>\<open>catch\<close> with status 500:
  \<^verbatim>\<open>generateAccessToken\<close> and \<^verbatim>\<open>getRefreshTokenExpiration\<close> run before the first write and can
  throw, and the store refuses an \<^verbatim>\<open>Invalid Date\<close> for \<^verbatim>\<open>expiresAt\<close> when the session row, the
  first write, is created. The cookies take the expiry date as it is.
\<close>

definition login_issue ::
  "env \<Rightarrow> ctx \<Rightarrow> world \<Rightarrow> login_data \<Rightarrow> user \<Rightarrow> organization \<Rightarrow> response \<times> world" where
  "login_issue e c w d u g =
     (let info = ctx_userInfo c; refreshToken = ctx_nanoid c in
      case generateAccessToken e (ctx_now c) (token_payload_of u) of
        Inl error \<Rightarrow> (errorResponse LoginFailed 500 None, w)
      | Inr accessToken \<Rightarrow>
       (case getRefreshTokenExpiration e (ctx_now c) of
           Inl error \<Rightarrow> (errorResponse LoginFailed 500 None, w)
         | Inr None \<Rightarrow> (errorResponse LoginFailed 500 None, w)
         | Inr (Some refreshTokenExpires) \<Rightarrow>
             let w' = w\<lparr>sessions := sessions w @
                        [\<lparr>session_id = ctx_new_id c, session_userId = user_id u,
                          session_refreshToken = refreshToken, session_accessToken = accessToken,
                          session_ipAddress = ui_ip info, session_userAgent = ui_userAgent info,
                          session_browser = ui_browser info, session_device = ui_device info,
                          session_os = ui_os info, session_isValid = True,
                          session_expiresAt = refreshTokenExpires,
                          session_lastActivityAt = ctx_now c\<rparr>],
                      users := update_user (users w) (user_id u)
                        (\<lambda>r. r\<lparr>user_lastLoginAt := Some (ctx_now c),
                               user_lastLoginIp := Some (ui_ip info),
                               user_lastLoginBrowser := Some (ui_browser info),
                               user_lastLoginDevice := Some (ui_device info),
                               user_lastLoginOs := Some (ui_os info),
                               user_failedLoginAttempts := 0,
                               user_lockedUntil := None\<rparr>),
                      securityLog := securityLog w @
                        [\<lparr>se_event = ''login.success'', se_severity = ''low'',
                          se_userId = user_id u, se_email = user_email u,
                          se_details = LoginSuccessDetails (ui_browser info) (ui_device info)
                                         (ui_os info),
                          se_ipAddress = ui_ip info, se_userAgent = ui_userAgent info,
                          se_blocked = None\<rparr>]\<rparr>
             in case getTokenExpiration (ctx_now c)
                       (if ld_rememberMe d = Some True then ''30d'' else ''7d'') of
                  Inl error \<Rightarrow> (errorResponse LoginFailed 500 None, w')
                | Inr cookieExpires \<Rightarrow>
                    (\<lparr>status = 200,
                      json = SuccessBody (LoginData accessToken refreshToken
                        \<lparr>us_id = user_id u, us_email = user_email u,
                         us_firstName = user_firstName u, us_lastName = user_lastName u,
                         us_role = user_role u, us_avatar = user_avatar u,
                         us_emailVerified = user_emailVerified u\<rparr>
                        \<lparr>os_id = org_id g, os_name = org_name g,
                         os_subdomain = org_subdomain g, os_status = org_status g\<rparr>),
                      cookies_set = [(''accessToken'', accessToken, cookieExpires),
                                     (''refreshToken'', refreshToken, cookieExpires)],
                      cookies_deleted = []\<rparr>, w')))"

text \<open>
  The body of the handler's \<^verbatim>\<open>try\<close>, for a request that has passed the rate limiter and
  the validation. \<^verbatim>\<open>user.organization\<close> is the row the user's \<^verbatim>\<open>organizationId\<close> names.
\<close>

definition login_try ::
  "env \<Rightarrow> ctx \<Rightarrow> world \<Rightarrow> string \<Rightarrow> string option \<Rightarrow> login_data \<Rightarrow> response \<times> world" where
  "login_try e c w ip userAgent d =
     (case find_user_by_email (users w) (ld_email d) of
        None \<Rightarrow> (errorResponse InvalidEmailOrPassword 401 None, w)
      | Some u \<Rightarrow>
          (case account_locked (ctx_now c) u of
             Some minutesLeft \<Rightarrow> (errorResponse (AccountLocked minutesLeft) 403 None, w)
           | None \<Rightarrow>
               if \<not> compare e (ld_password d) (user_password u)
               then login_password_invalid c w ip userAgent u
               else if \<not> user_isActive u then (errorResponse AccountSuspended 403 None, w)
               else
                 (case find_organization (organizations w) (user_organizationId u) of
                    None \<Rightarrow> (errorResponse LoginFailed 500 None, w)
                  | Some g \<Rightarrow>
                      if org_status g = ''SUSPENDED''
                      then (errorResponse OrganizationSuspended 403 None, w)
                      else if org_status g = ''CANCELLED''
                      then (errorResponse OrganizationCancelled 403 None, w)
                      else
                        (case isTrialExpired (ctx_now c) (organizations w)
                                (user_organizationId u) of
                           Inl error \<Rightarrow> (errorResponse LoginFailed 500 None, w)
                         | Inr True \<Rightarrow> (errorResponse TrialExpired 403 None, w)
                         | Inr False \<Rightarrow> login_issue e c w d u g))))"

definition login_POST ::
  "env \<Rightarrow> ctx \<Rightarrow> world \<Rightarrow> login_data parsed request \<Rightarrow> response \<times> world" where
  "login_POST e c w request =
     (let ip = js_or_default (header_x_forwarded_for request) ''anonymous'' in
      case applyRateLimit (rateLimitStore w) (ctx_now c) (''login:'' @ ip) 10 (60 * 1000) of
        (Some rateLimitError, store') \<Rightarrow> (rateLimitError, w\<lparr>rateLimitStore := store'\<rparr>)
      | (None, store') \<Rightarrow>
          (case validateRequest (body request) of
             Inl error \<Rightarrow> (error, w\<lparr>rateLimitStore := store'\<rparr>)
           | Inr d \<Rightarrow>
               login_try e c (w\<lparr>rateLimitStore := store'\<rparr>) ip (header_user_agent request) d))"

text \<open>A sequence of login requests, each with what it reads from its surroundings.\<close>

fun login_run ::
  "env \<Rightarrow> world \<Rightarrow> (ctx \<times> login_data parsed request) list \<Rightarrow> response list \<times> world" where
  "login_run e w [] = ([], w)"
| "login_run e w ((c, request) # rest) =
     (case login_POST e c w request of
        (r, w') \<Rightarrow> (case login_run e w' rest of (rs, w'') \<Rightarrow> (r # rs, w'')))"

section \<open>Refresh (src/app/api/auth/refresh/route.ts)\<close>

text \<open>
  The body of a refresh request is the \<^verbatim>\<open>refreshToken\<close> member of its JSON, if the body
  parses and has one. The cookie takes precedence; an empty token counts as none.
  \<^verbatim>\<open>generateAccessToken\<close> runs before the session is updated; if it throws, the handler
  answers 500 and nothing is written.
\<close>

definition refresh_POST ::
  "env \<Rightarrow> ctx \<Rightarrow> world \<Rightarrow> string option request \<Rightarrow> response \<times> world" where
  "refresh_POST e c w request =
     (case js_or (cookie_refreshToken request) (body request) of
        None \<Rightarrow> (errorResponse RefreshTokenRequired 401 None, w)
      | Some refreshToken \<Rightarrow>
          if refreshToken = [] then (errorResponse RefreshTokenRequired 401 None, w)
          else
            (case find_session_by_refreshToken (sessions w) refreshToken of
               None \<Rightarrow> (errorResponse InvalidRefreshToken 401 None, w)
             | Some s \<Rightarrow>
                 if \<not> session_isValid s then (errorResponse SessionInvalid 401 None, w)
                 else if session_expiresAt s < ctx_now c
                 then (errorResponse SessionExpired 401 None,
                       w\<lparr>sessions := update_session (sessions w) (session_id s)
                                        (\<lambda>r. r\<lparr>session_isValid := False\<rparr>)\<rparr>)
                 else
                   (case find_user_by_id (users w) (session_userId s) of
                      None \<Rightarrow> (errorResponse RefreshFailed 500 None, w)
                    | Some u \<Rightarrow>
                        if \<not> user_isActive u then (errorResponse UserNotActive 401 None, w)
                        else
                          (case generateAccessToken e (ctx_now c) (token_payload_of u) of
                             Inl error \<Rightarrow> (errorResponse RefreshFailed 500 None, w)
                           | Inr accessToken \<Rightarrow>
                               let w' = w\<lparr>sessions :=
                                          update_session (sessions w) (session_id s)
                                            (\<lambda>r. r\<lparr>session_accessToken := accessToken,
                                                   session_lastActivityAt := ctx_now c\<rparr>)\<rparr>
                               in case getTokenExpiration (ctx_now c) ''7d'' of
                                    Inl error \<Rightarrow> (errorResponse RefreshFailed 500 None, w')
                                  | Inr expires \<Rightarrow>
                                      (\<lparr>status = 200,
                                        json = SuccessBody (AccessTokenData accessToken),
                                        cookies_set = [(''accessToken'', accessToken, expires)],
                                        cookies_deleted = []\<rparr>, w')))))"

section \<open>Change password (the first handler of src/unnamed/part_003)\<close>

record change_password_data =
  cp_currentPassword :: string
  cp_newPassword :: string

definition request_log_ip :: "'a request \<Rightarrow> string" where
  "request_log_ip request = js_or_default (header_x_forwarded_for request) ''unknown''"

definition request_log_userAgent :: "'a request \<Rightarrow> string" where
  "request_log_userAgent request = js_or_default (header_user_agent request) []"

definition change_password_POST ::
  "env \<Rightarrow> ctx \<Rightarrow> world \<Rightarrow> change_password_data parsed request \<Rightarrow> response \<times> world" where
  "change_password_POST e c w request =
     (case requireAuth e c w request of
        Inl error \<Rightarrow> (error, w)
      | Inr au \<Rightarrow>
          (case validateRequest (body request) of
             Inl validationError \<Rightarrow> (validationError, w)
           | Inr d \<Rightarrow>
               (case find_user_by_id (users w) (au_id au) of
                  None \<Rightarrow> (errorResponse UserNotFound 404 None, w)
                | Some userDetails \<Rightarrow>
                    if \<not> compare e (cp_currentPassword d) (user_password userDetails)
                    then (errorResponse CurrentPasswordWrong 401 None,
                          w\<lparr>securityLog := securityLog w @
                              [\<lparr>se_event = ''password.change_failed'', se_severity = ''medium'',
                                se_userId = au_id au, se_email = au_email au,
                                se_details = ReasonDetails ''Invalid current password'',
                                se_ipAddress = request_log_ip request,
                                se_userAgent = request_log_userAgent request,
                                se_blocked = None\<rparr>]\<rparr>)
                    else if cp_currentPassword d = cp_newPassword d
                    then (errorResponse NewPasswordSameAsCurrent 400 None, w)
                    else
                      (successResponse (MessageData PasswordChanged) 200,
                       w\<lparr>users := update_user (users w) (au_id au)
                            (\<lambda>r. r\<lparr>user_password := hash e (cp_newPassword d) 12\<rparr>),
                         sessions := updateMany_sessions (sessions w)
                            (\<lambda>s. session_userId s = au_id au \<and> session_isValid s
                                 \<and> session_refreshToken s
                                     \<noteq> js_or_default (cookie_refreshToken request) [])
                            (\<lambda>s. s\<lparr>session_isValid := False\<rparr>),
                         securityLog := securityLog w @
                            [\<lparr>se_event = ''password.changed'', se_severity = ''medium'',
                              se_userId = au_id au, se_email = au_email au,
                              se_details = OtherSessionsInvalidated,
                              se_ipAddress = request_log_ip request,
                              se_userAgent = request_log_userAgent request,
                              se_blocked = None\<rparr>],
                         adminAuditLog := adminAuditLog w @
                            [\<lparr>ae_userId = au_id au, ae_action = ''user.password_change'',
                              ae_resource = ''User'', ae_resourceId = au_id au,
                              ae_ipAddress = request_log_ip request,
                              ae_userAgent = request_log_userAgent request\<rparr>]\<rparr>))))"

section \<open>Forgot password (src/app/api/auth/forgot-password/route.ts)\<close>

text \<open>
  This handler answers the same way when a store call throws, so its store calls can
  fail here: \<open>throws k\<close> says that the \<open>k\<close>-th store call of the request (0 the lookup
  of the user, 1 the update of the user, 2 the log entry) throws. The mail is sent
  without being awaited and cannot change the response.
\<close>

record forgot_password_data =
  fp_email :: string

definition forgot_password_POST ::
  "ctx \<Rightarrow> (nat \<Rightarrow> bool) \<Rightarrow> world \<Rightarrow> forgot_password_data parsed request \<Rightarrow> response \<times> world" where
  "forgot_password_POST c throws w request =
     (let ip = js_or_default (header_x_forwarded_for request) ''anonymous'' in
      case applyRateLimit (rateLimitStore w) (ctx_now c) (''forgot-password:'' @ ip) 3
             (60 * 60 * 1000) of
        (Some rateLimitError, store') \<Rightarrow> (rateLimitError, w\<lparr>rateLimitStore := store'\<rparr>)
      | (None, store') \<Rightarrow>
          let w1 = w\<lparr>rateLimitStore := store'\<rparr> in
          (case validateRequest (body request) of
             Inl error \<Rightarrow> (error, w1)
           | Inr d \<Rightarrow>
               if throws 0 then (successResponse (MessageData ResetLinkSentIfRegistered) 200, w1)
               else
                 (case find_user_by_email (users w1) (fp_email d) of
                    None \<Rightarrow> (successResponse (MessageData ResetLinkSentIfRegistered) 200, w1)
                  | Some u \<Rightarrow>
                      if \<not> user_isActive u
                      then (successResponse (MessageData ResetLinkSentIfRegistered) 200, w1)
                      else
                        let resetToken = ctx_nanoid c;
                            resetExpires = ctx_now c + 60 * 60 * 1000
                        in if throws 1
                           then (successResponse (MessageData ResetLinkSentIfRegistered) 200, w1)
                           else
                             let w2 = w1\<lparr>users := update_user (users w1) (user_id u)
                                        (\<lambda>r. r\<lparr>user_resetPasswordToken := Some resetToken,
                                               user_resetPasswordExpires := Some resetExpires\<rparr>)\<rparr>
                             in if throws 2
                                then (successResponse (MessageData ResetLinkSentIfRegistered) 200,
                                      w2)
                                else
                                  (successResponse (MessageData ResetLinkSentIfRegistered) 200,
                                   w2\<lparr>securityLog := securityLog w2 @
                                      [\<lparr>se_event = ''password.reset_requested'',
                                        se_severity = ''medium'', se_userId = user_id u,
                                        se_email = user_email u,
                                        se_details = TokenExpiresDetails resetExpires,
                                        se_ipAddress = ip,
                                        se_userAgent = request_log_userAgent request,
                                        se_blocked = None\<rparr>]\<rparr>))))"

section \<open>Reset password (the first handler of src/unnamed/part_004)\<close>




section \<open>Logout (src/app/api/auth/logout/route.ts, src/app/api/auth/logout/all/route.ts)\<close>




section \<open>A concrete environment and store\<close>

text \<open>
  The theorems below hold for every environment. Their instances are evaluated in this
  one: the \<^verbatim>\<open>Date\<close> accessors of the time zone UTC (days since the epoch to the civil
  year and month), a password hash that prefixes its argument, and a token format that
  carries the user id.
\<close>

definition utc_year_month :: "date \<Rightarrow> int \<times> int" where
  "utc_year_month t =
     (let z = t div 86400000 + 719468;
          era = z div 146097;
          doe = z - era * 146097;
          yoe = (doe - doe div 1460 + doe div 36524 - doe div 146096) div 365;
          doy = doe - (365 * yoe + yoe div 4 - yoe div 100);
          mp = (5 * doy + 2) div 153;
          m = (if mp < 10 then mp + 3 else mp - 9);
          y = yoe + era * 400
      in (if m \<le> 2 then y + 1 else y, m - 1))"

definition demo_verify :: "string \<Rightarrow> string \<Rightarrow> date \<Rightarrow> exn + token_payload" where
  "demo_verify token secret t =
     (if take 4 token = ''jwt.''
      then Inr \<lparr>tp_userId = drop 4 token, tp_email = [], tp_role = [], tp_organizationId = []\<rparr>
      else Inl (JsonWebTokenError ''jwt malformed''))"

definition demo_env :: env where
  "demo_env =
     \<lparr>sign = (\<lambda>payload secret expiresIn t. Inr (''jwt.'' @ tp_userId payload)),
      verify = demo_verify,
      compare = (\<lambda>password hashed. hashed = ''bcrypt:'' @ password),
      hash = (\<lambda>password rounds. ''bcrypt:'' @ password),
      getFullYear = (\<lambda>t. fst (utc_year_month t)),
      getMonth = (\<lambda>t. snd (utc_year_month t)),
      env_JWT_SECRET = None, env_JWT_EXPIRES_IN = None, env_REFRESH_TOKEN_EXPIRES_IN = None\<rparr>"

definition alice :: user where
  "alice =
     \<lparr>user_id = ''u1'', user_email = ''alice@example.com'', user_password = ''bcrypt:secret'',
      user_firstName = ''Alice'', user_lastName = ''A'', user_role = ''DIETITIAN'',
      user_avatar = None, user_emailVerified = True, user_organizationId = ''o1'',
      user_isActive = True, user_failedLoginAttempts = 0, user_lockedUntil = None,
      user_resetPasswordToken = None, user_resetPasswordExpires = None,
      user_lastLoginAt = None, user_lastLoginIp = None, user_lastLoginBrowser = None,
      user_lastLoginDevice = None, user_lastLoginOs = None\<rparr>"

definition bob :: user where
  "bob = alice\<lparr>user_id := ''u2'', user_email := ''bob@example.com'', user_isActive := False\<rparr>"

definition acme :: organization where
  "acme =
     \<lparr>org_id = ''o1'', org_name = ''Acme'', org_subdomain = ''acme'', org_status = ''ACTIVE'',
      org_plan = ''STARTER'', org_trialEndsAt = None, org_maxUsers = 10, org_maxPatients = 50,
      org_maxStorage = 1000, org_maxAiQueries = 100, org_currentUsers = 9,
      org_currentPatients = 50, org_currentStorage = 0, org_currentAiQueries = 100,
      org_aiQueriesResetAt = 1706659200000\<rparr>"

definition alice_session :: "string \<Rightarrow> string \<Rightarrow> date \<Rightarrow> session" where
  "alice_session i token expires =
     \<lparr>session_id = i, session_userId = ''u1'', session_refreshToken = token,
      session_accessToken = ''jwt.u1'', session_ipAddress = ''1.2.3.4'',
      session_userAgent = ''agent'', session_browser = ''browser'', session_device = ''desktop'',
      session_os = ''os'', session_isValid = True, session_expiresAt = expires,
      session_lastActivityAt = 0\<rparr>"

definition demo_world :: world where
  "demo_world =
     \<lparr>users = [alice, bob],
      sessions = [alice_session ''s1'' ''refresh-1'' 1000, alice_session ''s2'' ''refresh-2'' 5000],
      organizations = [acme], securityLog = [], adminAuditLog = [],
      rateLimitStore = (\<lambda>k. None)\<rparr>"

definition demo_ctx :: "date \<Rightarrow> ctx" where
  "demo_ctx t =
     \<lparr>ctx_now = t, ctx_nanoid = ''fresh-token'', ctx_new_id = ''fresh-id'',
      ctx_userInfo = \<lparr>ui_ip = ''1.2.3.4'', ui_browser = ''browser'', ui_device = ''desktop'',
                      ui_os = ''os'', ui_userAgent = ''agent''\<rparr>\<rparr>"

definition demo_request :: "'a \<Rightarrow> 'a request" where
  "demo_request b =
     \<lparr>header_x_forwarded_for = Some ''1.2.3.4'', header_user_agent = Some ''agent'',
      header_authorization = None, cookie_accessToken = Some ''jwt.u1'',
      cookie_refreshToken = Some ''refresh-2'', body = b\<rparr>"

definition login_request :: "string \<Rightarrow> string \<Rightarrow> login_data parsed request" where
  "login_request e p = demo_request (Valid \<lparr>ld_email = e, ld_password = p, ld_rememberMe = None\<rparr>)"

section \<open>Notions for the statements\<close>

text \<open>Requests for the instances below.\<close>

definition refresh_request :: "string \<Rightarrow> string option request" where
  "refresh_request token = (demo_request None)\<lparr>cookie_refreshToken := Some token\<rparr>"

text \<open>The two responses of the branch for a wrong password.\<close>

definition wrong_password_response :: "response \<Rightarrow> bool" where
  "wrong_password_response r =
     (case json r of
        ErrorBody (InvalidEmailOrPasswordRemaining n) x \<Rightarrow> True
      | ErrorBody TooManyFailedAttempts x \<Rightarrow> True
      | _ \<Rightarrow> False)"

text \<open>The responses of the rate limiter (429) and of the validation (400).\<close>

definition gate_rejection :: "response \<Rightarrow> bool" where
  "gate_rejection r = (status r = 429 \<or> status r = 400)"

text \<open>The response to a login while the account is locked until \<open>l\<close>, at time \<open>t\<close>.\<close>

definition locked_rejection :: "date \<Rightarrow> date \<Rightarrow> response" where
  "locked_rejection l t = errorResponse (AccountLocked (ceil_div (l - t) 60000)) 403 None"

text \<open>The address that keys the rate limiter: \<^verbatim>\<open>request.headers.get('x-forwarded-for') || 'anonymous'\<close>.\<close>

definition login_ip :: "'a request \<Rightarrow> string" where
  "login_ip request = js_or_default (header_x_forwarded_for request) ''anonymous''"

text \<open>The \<^verbatim>\<open>updates\<close> of the branch for a wrong password, applied to the user they were computed from.\<close>

definition failed_update :: "date \<Rightarrow> user \<Rightarrow> user" where
  "failed_update t u =
     (if user_failedLoginAttempts u + 1 \<ge> MAX_LOGIN_ATTEMPTS
      then u\<lparr>user_lockedUntil := Some (t + LOCK_DURATION)\<rparr>
      else u)\<lparr>user_failedLoginAttempts := user_failedLoginAttempts u + 1\<rparr>"

definition wrong_attempts :: "(ctx \<times> login_data parsed request) list" where
  "wrong_attempts = map (\<lambda>t. (demo_ctx t, login_request ''alice@example.com'' ''guess''))
                      [0, 1000, 2000, 3000, 4000]"

definition locked_attempts :: "(ctx \<times> login_data parsed request) list" where
  "locked_attempts = map (\<lambda>t. (demo_ctx t, login_request ''alice@example.com'' ''secret''))
                       [5000, 6000, 7000, 8000, 9000, 10000]"


text \<open>Between two versions of a user row the failure counter has not gone down and a lock has not been removed.\<close>

definition not_cleared :: "user \<Rightarrow> user \<Rightarrow> bool" where
  "not_cleared u u' =
     (user_failedLoginAttempts u \<le> user_failedLoginAttempts u'
      \<and> (user_lockedUntil u' = None \<longrightarrow> user_lockedUntil u = None))"



definition change_password_request :: "change_password_data parsed request" where
  "change_password_request =
     demo_request (Valid \<lparr>cp_currentPassword = ''secret'', cp_newPassword = ''Secret123''\<rparr>)"

definition forgot_password_request :: "string \<Rightarrow> forgot_password_data parsed request" where
  "forgot_password_request e = demo_request (Valid \<lparr>fp_email = e\<rparr>)"



section \<open>The rate limiter\<close>

lemma allowed_count_Cons: "allowed_count (b # bs) = (if b then 1 else 0) + allowed_count bs"
  by (simp add: allowed_count_def)

lemma rateLimit_open:
  "s key = Some r \<Longrightarrow> \<not> resetAt r < now \<Longrightarrow>
   rateLimit s now key limit windowMs =
     (if limit \<le> count r then (False, s) else (True, s(key \<mapsto> r\<lparr>count := count r + 1\<rparr>)))"
  by (simp add: rateLimit_def)

lemma rateLimit_first:
  "s key = None \<or> (\<exists>r. s key = Some r \<and> resetAt r < now) \<Longrightarrow>
   rateLimit s now key limit windowMs = (True, s(key \<mapsto> \<lparr>count = 1, resetAt = now + windowMs\<rparr>))"
  by (auto simp add: rateLimit_def)

lemma rateLimit_calls_Cons_fst:
  "rateLimit store t key limit w = (a, s') \<Longrightarrow>
   fst (rateLimit_calls store key limit w (t # ts)) = a # fst (rateLimit_calls s' key limit w ts)"
  by (simp split: prod.splits)

lemma rateLimit_calls_open:
  "store key = Some r \<Longrightarrow> \<forall>t\<in>set ts. \<not> resetAt r < t \<Longrightarrow>
   allowed_count (fst (rateLimit_calls store key limit w ts)) = min (length ts) (nat (limit - count r))"
proof (induction ts arbitrary: store r)
  case Nil
  then show ?case by (simp add: allowed_count_def)
next
  case (Cons t ts)
  have open_t: "\<not> resetAt r < t" and rest: "\<forall>t\<in>set ts. \<not> resetAt r < t"
    using Cons.prems(2) by simp_all
  show ?case
  proof (cases "limit \<le> count r")
    case True
    have step: "rateLimit store t key limit w = (False, store)"
      using Cons.prems(1) open_t True by (simp add: rateLimit_open)
    have "allowed_count (fst (rateLimit_calls store key limit w ts)) = min (length ts) (nat (limit - count r))"
      using Cons.prems(1) rest by (rule Cons.IH)
    then show ?thesis using True
      by (simp add: allowed_count_Cons rateLimit_calls_Cons_fst [OF step] del: rateLimit_calls.simps)
  next
    case False
    let ?r' = "r\<lparr>count := count r + 1\<rparr>"
    let ?s' = "store(key \<mapsto> ?r')"
    have step: "rateLimit store t key limit w = (True, ?s')"
      using Cons.prems(1) open_t False by (simp add: rateLimit_open)
    have "?s' key = Some ?r'" by simp
    moreover have "\<forall>t\<in>set ts. \<not> resetAt ?r' < t" using rest by simp
    ultimately have "allowed_count (fst (rateLimit_calls ?s' key limit w ts)) = min (length ts) (nat (limit - count ?r'))"
      by (rule Cons.IH)
    then show ?thesis using False
      by (simp add: allowed_count_Cons rateLimit_calls_Cons_fst [OF step] del: rateLimit_calls.simps)
  qed
qed

text \<open>
  Claim C9, amended. The first call of a window (no record for the key, or a record whose
  reset deadline has passed) stores count 1 with the deadline \<open>now + windowMs\<close> and is
  allowed. While the window is open (the deadline has not passed) a call is refused
  exactly when the stored count has reached \<open>limit\<close>, without changing the store, and
  otherwise increments the count and is allowed. Of the calls of one window, the first
  and \<open>n\<close> later ones, exactly \<open>1 + min n (limit - 1)\<close> are allowed (\<open>limit - 1\<close> cut off at
  0): at most \<open>max 1 limit\<close>, which is \<open>limit\<close> only when \<open>limit\<close> is at least 1. The first call
  of a window is allowed whatever the limit is.
\<close>

theorem rateLimit_window:
  assumes first: "store key = None \<or> (\<exists>r. store key = Some r \<and> resetAt r < t0)"
      and window_open: "\<forall>t\<in>set ts. \<not> t0 + windowMs < t"
  shows "rateLimit store t0 key limit windowMs
           = (True, store(key \<mapsto> \<lparr>count = 1, resetAt = t0 + windowMs\<rparr>))
       \<and> (\<forall>s r now. s key = Some r \<and> \<not> resetAt r < now \<longrightarrow>
            rateLimit s now key limit windowMs =
              (if limit \<le> count r then (False, s)
               else (True, s(key \<mapsto> r\<lparr>count := count r + 1\<rparr>))))
       \<and> allowed_count (fst (rateLimit_calls store key limit windowMs (t0 # ts)))
           = 1 + min (length ts) (nat (limit - 1))
       \<and> allowed_count (fst (rateLimit_calls store key limit windowMs (t0 # ts)))
           \<le> nat (max 1 limit)"
proof -
  let ?r1 = "\<lparr>count = 1, resetAt = t0 + windowMs\<rparr>"
  let ?s1 = "store(key \<mapsto> ?r1)"
  have one: "rateLimit store t0 key limit windowMs = (True, ?s1)"
    using first by (rule rateLimit_first)
  have two: "\<forall>s r now. s key = Some r \<and> \<not> resetAt r < now \<longrightarrow>
            rateLimit s now key limit windowMs =
              (if limit \<le> count r then (False, s)
               else (True, s(key \<mapsto> r\<lparr>count := count r + 1\<rparr>)))"
    using rateLimit_open by blast
  have "?s1 key = Some ?r1" by simp
  moreover have "\<forall>t\<in>set ts. \<not> resetAt ?r1 < t" using window_open by simp
  ultimately have "allowed_count (fst (rateLimit_calls ?s1 key limit windowMs ts))
      = min (length ts) (nat (limit - count ?r1))"
    by (rule rateLimit_calls_open)
  then have three: "allowed_count (fst (rateLimit_calls store key limit windowMs (t0 # ts)))
           = 1 + min (length ts) (nat (limit - 1))"
    by (simp add: allowed_count_Cons rateLimit_calls_Cons_fst [OF one] del: rateLimit_calls.simps)
  have four: "allowed_count (fst (rateLimit_calls store key limit windowMs (t0 # ts))) \<le> nat (max 1 limit)"
  proof -
    have "min (length ts) (nat (limit - 1)) \<le> nat (limit - 1)" by simp
    moreover have "1 \<le> limit \<Longrightarrow> Suc (nat (limit - 1)) = nat limit" by simp
    ultimately show ?thesis unfolding three by (cases "1 \<le> limit") (simp_all add: max_def)
  qed
  show ?thesis using one two three four by blast
qed

theorem rateLimit_window_witness:
  "allowed_count (fst (rateLimit_calls (\<lambda>k. None) ''login:1.2.3.4'' 3 60000 [0, 10, 20, 30, 60000])) = 3"
  using rateLimit_window [of "\<lambda>k. None" "''login:1.2.3.4''" 0 "[10, 20, 30, 60000]" 60000 3]
  by (simp del: rateLimit_calls.simps)

text \<open>
  With \<open>limit = 0\<close> the first call of the window is still allowed: one allowed call, more
  than the limit.
\<close>

theorem rateLimit_zero_limit_counterexample:
  "\<not> allowed_count (fst (rateLimit_calls (\<lambda>k. None) ''k'' 0 60000 [0, 1])) \<le> nat 0"
  by (simp add: rateLimit_def allowed_count_def)

section \<open>Lookups after updates\<close>

lemma find_map_preserve:
  "(\<And>x. P (f x) = P x) \<Longrightarrow> find P (map f xs) = map_option f (find P xs)"
  by (induction xs) simp_all

lemma find_organization_update:
  assumes "\<And>g. org_id (f g) = org_id g"
  shows "find_organization (update_organization os oid f) i
         = map_option (\<lambda>g. if org_id g = oid then f g else g) (find_organization os i)"
  unfolding find_organization_def update_organization_def
  by (rule find_map_preserve) (simp add: assms)

lemma find_organization_id: "find_organization os i = Some g \<Longrightarrow> org_id g = i"
  unfolding find_organization_def by (auto simp: find_Some_iff)

lemma org_id_increment [simp]: "org_id (increment_currentField ty n g) = org_id g"
  by (cases ty) simp_all

lemma currentField_increment [simp]:
  "currentField ty (increment_currentField ty n g) = currentField ty g + n"
  by (cases ty) simp_all

lemma maxField_increment [simp]:
  "maxField ty (increment_currentField ty n g) = maxField ty g"
  by (cases ty) simp_all

lemma find_user_by_email_update:
  assumes "\<And>u. user_email (f u) = user_email u"
  shows "find_user_by_email (update_user us i f) e
         = map_option (\<lambda>u. if user_id u = i then f u else u) (find_user_by_email us e)"
  unfolding find_user_by_email_def update_user_def
  by (rule find_map_preserve) (simp add: assms)

lemma find_session_update:
  assumes "\<And>s. session_refreshToken (f s) = session_refreshToken s"
  shows "find_session_by_refreshToken (update_session ss i f) t
         = map_option (\<lambda>s. if session_id s = i then f s else s) (find_session_by_refreshToken ss t)"
  unfolding find_session_by_refreshToken_def update_session_def
  by (rule find_map_preserve) (simp add: assms)

section \<open>Instances in the concrete environment\<close>

lemma utc_jan31: "utc_year_month 1706659200000 = (2024, 0)" by code_simp
lemma utc_feb01: "utc_year_month 1706745600000 = (2024, 1)" by code_simp
lemma utc_2025: "utc_year_month 1735689600000 = (2025, 0)" by code_simp
lemma utc_feb29: "utc_year_month 1709251199000 = (2024, 1)" by code_simp

lemma monthDiff_demo: "monthDiff demo_env 1706745600000 1706659200000 = 1"
  by (simp add: monthDiff_def demo_env_def utc_jan31 utc_feb01)

lemma find_acme: "find_organization [acme] ''o1'' = Some acme"
  by (simp add: find_organization_def acme_def)

lemmas demo_defs = demo_world_def demo_env_def demo_ctx_def demo_request_def login_request_def
  alice_def bob_def acme_def alice_session_def

lemmas login_defs = login_POST_def login_try_def login_password_invalid_def login_issue_def
  applyRateLimit_def rateLimit_def validateRequest_def account_locked_def
  find_user_by_email_def update_user_def find_organization_def isTrialExpired_def
  js_or_default_def MAX_LOGIN_ATTEMPTS_def LOCK_DURATION_def errorResponse_def

lemma find_session_token:
  "find_session_by_refreshToken ss t = Some s \<Longrightarrow> session_refreshToken s = t"
  unfolding find_session_by_refreshToken_def by (auto simp: find_Some_iff)

lemma find_user_by_email_email:
  "find_user_by_email us e = Some u \<Longrightarrow> user_email u = e"
  unfolding find_user_by_email_def by (auto simp: find_Some_iff)



section \<open>Entitlements\<close>

lemma hasFeature_plans:
  "hasFeature ''FREE'' f = Inr (f \<in> set [''basic_diet_plans'', ''patient_management''])"
  "hasFeature ''STARTER'' f = Inr (f \<in> set [''basic_diet_plans'', ''patient_management'',
      ''ai_diet_plans'', ''appointments'', ''messaging''])"
  "hasFeature ''PROFESSIONAL'' f = Inr (f \<in> set [''basic_diet_plans'', ''patient_management'',
      ''ai_diet_plans'', ''appointments'', ''messaging'', ''video_consultation'', ''white_label'',
      ''custom_domain'', ''advanced_reports''])"
  "hasFeature ''ENTERPRISE'' f = Inr (f \<in> set [''basic_diet_plans'', ''patient_management'',
      ''ai_diet_plans'', ''appointments'', ''messaging'', ''video_consultation'', ''white_label'',
      ''custom_domain'', ''advanced_reports'', ''api_access'', ''priority_support'',
      ''custom_integrations''])"
  by (simp_all add: hasFeature_def features_get_def features_def)

lemma hasFeature_FREE_STARTER:
  "hasFeature ''FREE'' f = Inr True \<Longrightarrow> hasFeature ''STARTER'' f = Inr True"
  unfolding hasFeature_plans by auto

lemma hasFeature_STARTER_PROFESSIONAL:
  "hasFeature ''STARTER'' f = Inr True \<Longrightarrow> hasFeature ''PROFESSIONAL'' f = Inr True"
  unfolding hasFeature_plans by auto

lemma hasFeature_PROFESSIONAL_ENTERPRISE:
  "hasFeature ''PROFESSIONAL'' f = Inr True \<Longrightarrow> hasFeature ''ENTERPRISE'' f = Inr True"
  unfolding hasFeature_plans by auto

lemma hasFeature_step:
  assumes "Suc i < length plan_order" and "hasFeature (plan_order ! i) f = Inr True"
  shows "hasFeature (plan_order ! Suc i) f = Inr True"
proof -
  have "i < 3" using assms(1) by (simp add: plan_order_def)
  then consider "i = 0" | "i = 1" | "i = 2"
    by linarith
  then show ?thesis
  proof cases
    case 1
    then show ?thesis using assms(2) hasFeature_FREE_STARTER by (simp add: plan_order_def)
  next
    case 2
    then show ?thesis using assms(2) hasFeature_STARTER_PROFESSIONAL by (simp add: plan_order_def)
  next
    case 3
    then show ?thesis using assms(2) hasFeature_PROFESSIONAL_ENTERPRISE
      by (simp add: plan_order_def numeral_3_eq_3 numeral_2_eq_2)
  qed
qed

lemma hasFeature_monotone:
  assumes "i \<le> j" and "j < length plan_order"
    and "hasFeature (plan_order ! i) f = Inr True"
  shows "hasFeature (plan_order ! j) f = Inr True"
  using assms
proof (induction j)
  case 0
  then show ?case by simp
next
  case (Suc j)
  show ?case
  proof (cases "i = Suc j")
    case True
    then show ?thesis using Suc.prems(3) by simp
  next
    case False
    then have "i \<le> j" using Suc.prems(1) by simp
    then have "hasFeature (plan_order ! j) f = Inr True"
      using Suc.IH Suc.prems(2,3) by simp
    then show ?thesis using Suc.prems(2) by (rule hasFeature_step [rotated])
  qed
qed

lemma hasFeature_unknown_plan:
  assumes "plan \<notin> set plan_order" and "plan \<notin> set Object_prototype_properties"
  shows "hasFeature plan f = Inr False"
proof -
  have "map_of features plan = None"
    using assms(1) by (simp add: features_def plan_order_def)
  then show ?thesis using assms(2) by (simp add: hasFeature_def features_get_def)
qed

lemma hasFeature_known_plan:
  assumes "plan \<in> set plan_order"
  shows "hasFeature plan f = Inr (f \<in> set known_features \<and> hasFeature plan f = Inr True)"
  using assms by (auto simp: plan_order_def hasFeature_plans known_features_def features_def)

text \<open>
  Claim C5, amended. \<^verbatim>\<open>hasFeature('FREE', 'white_label')\<close> is false and
  \<^verbatim>\<open>hasFeature('ENTERPRISE', 'white_label')\<close> is true. A feature that a plan has, every
  higher plan in the order FREE, STARTER, PROFESSIONAL, ENTERPRISE has too. For each of
  the four plans \<^verbatim>\<open>hasFeature\<close> returns a boolean for every feature name, false for an
  unknown one. For a plan that is neither one of the four nor the name of a property
  that the object literal inherits from \<^verbatim>\<open>Object.prototype\<close> it returns false. For the name
  of an inherited property (\<^verbatim>\<open>constructor\<close>, \<^verbatim>\<open>toString\<close>, ...) it throws a \<^verbatim>\<open>TypeError\<close>:
  the lookup finds a value that is not \<^verbatim>\<open>undefined\<close> and has no \<^verbatim>\<open>includes\<close> method. The type
  \<^verbatim>\<open>SubscriptionPlan\<close> of the parameter admits the four plans only.
\<close>

theorem hasFeature_entitlements:
  "hasFeature ''FREE'' ''white_label'' = Inr False
   \<and> hasFeature ''ENTERPRISE'' ''white_label'' = Inr True
   \<and> (\<forall>i j f. i \<le> j \<and> j < length plan_order \<and> hasFeature (plan_order ! i) f = Inr True
         \<longrightarrow> hasFeature (plan_order ! j) f = Inr True)
   \<and> (\<forall>plan f. plan \<in> set plan_order \<longrightarrow> (\<exists>b. hasFeature plan f = Inr b))
   \<and> (\<forall>plan f. plan \<in> set plan_order \<and> f \<notin> set known_features \<longrightarrow> hasFeature plan f = Inr False)
   \<and> (\<forall>plan f. plan \<notin> set plan_order \<and> plan \<notin> set Object_prototype_properties
         \<longrightarrow> hasFeature plan f = Inr False)
   \<and> (\<forall>plan f. plan \<in> set Object_prototype_properties \<longrightarrow> (\<exists>x. hasFeature plan f = Inl x))"
proof -
  have a: "hasFeature ''FREE'' ''white_label'' = Inr False"
    by (simp add: hasFeature_plans)
  have b: "hasFeature ''ENTERPRISE'' ''white_label'' = Inr True"
    by (simp add: hasFeature_plans)
  have c: "\<forall>i j f. i \<le> j \<and> j < length plan_order \<and> hasFeature (plan_order ! i) f = Inr True
         \<longrightarrow> hasFeature (plan_order ! j) f = Inr True"
    using hasFeature_monotone by blast
  have d: "\<forall>plan f. plan \<in> set plan_order \<longrightarrow> (\<exists>b. hasFeature plan f = Inr b)"
    using hasFeature_known_plan by blast
  have e: "\<forall>plan f. plan \<in> set plan_order \<and> f \<notin> set known_features \<longrightarrow> hasFeature plan f = Inr False"
    using hasFeature_known_plan by metis
  have f: "\<forall>plan f. plan \<notin> set plan_order \<and> plan \<notin> set Object_prototype_properties
         \<longrightarrow> hasFeature plan f = Inr False"
    using hasFeature_unknown_plan by blast
  have g: "\<forall>plan f. plan \<in> set Object_prototype_properties \<longrightarrow> (\<exists>x. hasFeature plan f = Inl x)"
    by (auto simp: Object_prototype_properties_def hasFeature_def features_get_def features_def)
  show ?thesis using a b c d e f g by blast
qed

theorem hasFeature_entitlements_witness:
  "hasFeature (plan_order ! 1) ''messaging'' = Inr True
   \<and> hasFeature (plan_order ! 3) ''messaging'' = Inr True
   \<and> hasFeature ''STARTER'' ''teleport'' = Inr False
   \<and> hasFeature ''PLATINUM'' ''messaging'' = Inr False"
proof -
  have s: "hasFeature (plan_order ! 1) ''messaging'' = Inr True"
    by (simp add: plan_order_def hasFeature_def features_get_def features_def)
  have m: "(1::nat) \<le> 3 \<and> 3 < length plan_order \<and> hasFeature (plan_order ! 1) ''messaging'' = Inr True"
    using s by (simp add: plan_order_def)
  have p: "hasFeature (plan_order ! 3) ''messaging'' = Inr True"
    using hasFeature_entitlements m by blast
  have k: "''STARTER'' \<in> set plan_order \<and> ''teleport'' \<notin> set known_features"
    by (simp add: plan_order_def known_features_def features_def)
  have t: "hasFeature ''STARTER'' ''teleport'' = Inr False"
    using hasFeature_entitlements k by blast
  have u: "''PLATINUM'' \<notin> set plan_order \<and> ''PLATINUM'' \<notin> set Object_prototype_properties"
    by (simp add: plan_order_def Object_prototype_properties_def)
  have q: "hasFeature ''PLATINUM'' ''messaging'' = Inr False"
    using hasFeature_entitlements u by blast
  show ?thesis using s p t q by blast
qed

text \<open>An unknown plan for which \<^verbatim>\<open>hasFeature\<close> does not return false: it throws.\<close>

theorem hasFeature_inherited_counterexample:
  "hasFeature ''constructor'' ''white_label'' \<noteq> Inr False"
  by (simp add: hasFeature_def features_get_def features_def Object_prototype_properties_def)

section \<open>Usage limits\<close>

text \<open>
  Claim C6. For every organization in the store, \<^verbatim>\<open>checkUsageLimit\<close> for \<^verbatim>\<open>aiQueries\<close>, when
  the month difference that the code computes between the stored \<^verbatim>\<open>aiQueriesResetAt\<close> and
  now is at least 1, returns \<^verbatim>\<open>exceeded: false\<close> and \<^verbatim>\<open>current: 0\<close> (whatever the maximum is: the
  counter is not read again), and leaves the organization with \<^verbatim>\<open>currentAiQueries = 0\<close> and
  \<^verbatim>\<open>aiQueriesResetAt = now\<close>; the other organizations are as before.
\<close>

theorem checkUsageLimit_monthly_reset:
  assumes "find_organization os organizationId = Some g"
      and "monthDiff e t (org_aiQueriesResetAt g) \<ge> 1"
  shows "\<exists>os'. checkUsageLimit e t os organizationId AiQueries
             = Inr (\<lparr>usage_exceeded = False, usage_current = 0,
                     usage_max = org_maxAiQueries g\<rparr>, os')
           \<and> find_organization os' organizationId
               = Some (g\<lparr>org_currentAiQueries := 0, org_aiQueriesResetAt := t\<rparr>)
           \<and> (\<forall>i. i \<noteq> organizationId \<longrightarrow> find_organization os' i = find_organization os i)"
proof -
  let ?f = "\<lambda>g. g\<lparr>org_currentAiQueries := 0, org_aiQueriesResetAt := t\<rparr>"
  let ?os' = "update_organization os organizationId ?f"
  have r: "checkUsageLimit e t os organizationId AiQueries
             = Inr (\<lparr>usage_exceeded = False, usage_current = 0,
                     usage_max = org_maxAiQueries g\<rparr>, ?os')"
    using assms by (simp add: checkUsageLimit_def)
  have u: "\<And>i. find_organization ?os' i
         = map_option (\<lambda>g. if org_id g = organizationId then ?f g else g) (find_organization os i)"
    by (rule find_organization_update) simp
  have a: "find_organization ?os' organizationId = Some (?f g)"
    using assms(1) find_organization_id [OF assms(1)] by (simp add: u)
  have b: "\<forall>i. i \<noteq> organizationId \<longrightarrow> find_organization ?os' i = find_organization os i"
  proof (intro allI impI)
    fix i assume "i \<noteq> organizationId"
    then show "find_organization ?os' i = find_organization os i"
      by (cases "find_organization os i") (auto simp: u dest: find_organization_id)
  qed
  show ?thesis using r a b by blast
qed


theorem checkUsageLimit_monthly_reset_witness:
  "\<exists>os'. checkUsageLimit demo_env 1706745600000 [acme] ''o1'' AiQueries
             = Inr (\<lparr>usage_exceeded = False, usage_current = 0, usage_max = 100\<rparr>, os')
         \<and> find_organization os' ''o1''
             = Some (acme\<lparr>org_currentAiQueries := 0, org_aiQueriesResetAt := 1706745600000\<rparr>)"
proof -
  have m: "monthDiff demo_env 1706745600000 (org_aiQueriesResetAt acme) \<ge> 1"
    using monthDiff_demo by (simp add: acme_def)
  have "org_maxAiQueries acme = 100" by (simp add: acme_def)
  then show ?thesis
    using checkUsageLimit_monthly_reset [OF find_acme m] by auto
qed

lemma checkAndIncrementUsage_exceeded:
  assumes "find_organization os organizationId = Some g"
      and "\<not> reset_due e t ty g" and "currentField ty g \<ge> maxField ty g"
  shows "checkAndIncrementUsage e t os organizationId ty amount
           = Inr (Some (errorResponse (UsageLimitExceeded (currentField ty g) (maxField ty g)) 403 None), os)"
  using assms by (auto simp: checkAndIncrementUsage_def checkUsageLimit_def reset_due_def)

lemma checkAndIncrementUsage_below:
  assumes "find_organization os organizationId = Some g"
      and "\<not> reset_due e t ty g" and "currentField ty g < maxField ty g"
  shows "checkAndIncrementUsage e t os organizationId ty amount
           = Inr (None, update_organization os organizationId (increment_currentField ty amount))"
  using assms
  by (auto simp: checkAndIncrementUsage_def checkUsageLimit_def reset_due_def incrementUsage_def)

lemma checkAndIncrementUsage_reset:
  assumes "find_organization os organizationId = Some g"
      and "reset_due e t ty g"
  shows "checkAndIncrementUsage e t os organizationId ty amount
           = Inr (None, update_organization
                          (update_organization os organizationId
                             (\<lambda>g. g\<lparr>org_currentAiQueries := 0, org_aiQueriesResetAt := t\<rparr>))
                          organizationId (increment_currentField ty amount))"
proof -
  let ?f = "\<lambda>g. g\<lparr>org_currentAiQueries := 0, org_aiQueriesResetAt := t\<rparr>"
  have "find_organization (update_organization os organizationId ?f) organizationId \<noteq> None"
    using assms(1) by (simp add: find_organization_update)
  then show ?thesis
    using assms
    by (auto simp: checkAndIncrementUsage_def checkUsageLimit_def reset_due_def incrementUsage_def)
qed

text \<open>
  Claim C4, amended. For an organization in the store:
  when no monthly reset is due and the counter has reached the maximum, the call fails
  with 403 and leaves the store as it was; when no reset is due and the counter is below
  the maximum, the call passes and adds exactly \<open>amount\<close> to the counter, which stays
  within the maximum when \<open>amount\<close> is at most 1 (the default); when the monthly reset of
  the AI-query counter is due, the call passes whatever the counter was, and leaves the
  counter at \<open>amount\<close> and the reset date at now.
\<close>

theorem checkAndIncrementUsage_effect:
  assumes found: "find_organization os organizationId = Some g"
  shows "(\<not> reset_due e t ty g \<and> currentField ty g \<ge> maxField ty g \<longrightarrow>
            checkAndIncrementUsage e t os organizationId ty amount
              = Inr (Some (errorResponse
                             (UsageLimitExceeded (currentField ty g) (maxField ty g)) 403 None), os))
       \<and> (\<not> reset_due e t ty g \<and> currentField ty g < maxField ty g \<longrightarrow>
            (\<exists>os' g'. checkAndIncrementUsage e t os organizationId ty amount = Inr (None, os')
               \<and> find_organization os' organizationId = Some g'
               \<and> g' = increment_currentField ty amount g
               \<and> currentField ty g' = currentField ty g + amount
               \<and> (amount \<le> 1 \<longrightarrow> currentField ty g' \<le> maxField ty g')))
       \<and> (reset_due e t ty g \<longrightarrow>
            (\<exists>os'. checkAndIncrementUsage e t os organizationId ty amount = Inr (None, os')
               \<and> find_organization os' organizationId
                   = Some (g\<lparr>org_currentAiQueries := amount, org_aiQueriesResetAt := t\<rparr>)))"
proof -
  have oid: "org_id g = organizationId" using found by (rule find_organization_id)
  have a: "\<not> reset_due e t ty g \<and> currentField ty g \<ge> maxField ty g \<longrightarrow>
            checkAndIncrementUsage e t os organizationId ty amount
              = Inr (Some (errorResponse
                             (UsageLimitExceeded (currentField ty g) (maxField ty g)) 403 None), os)"
    using checkAndIncrementUsage_exceeded [OF found] by blast
  have b: "\<not> reset_due e t ty g \<and> currentField ty g < maxField ty g \<longrightarrow>
            (\<exists>os' g'. checkAndIncrementUsage e t os organizationId ty amount = Inr (None, os')
               \<and> find_organization os' organizationId = Some g'
               \<and> g' = increment_currentField ty amount g
               \<and> currentField ty g' = currentField ty g + amount
               \<and> (amount \<le> 1 \<longrightarrow> currentField ty g' \<le> maxField ty g'))"
  proof
    assume h: "\<not> reset_due e t ty g \<and> currentField ty g < maxField ty g"
    let ?os' = "update_organization os organizationId (increment_currentField ty amount)"
    have r: "checkAndIncrementUsage e t os organizationId ty amount = Inr (None, ?os')"
      using checkAndIncrementUsage_below [OF found] h by blast
    have f: "find_organization ?os' organizationId = Some (increment_currentField ty amount g)"
      using found oid by (simp add: find_organization_update)
    have "amount \<le> 1 \<longrightarrow> currentField ty (increment_currentField ty amount g)
             \<le> maxField ty (increment_currentField ty amount g)"
      using h by simp
    then show "\<exists>os' g'. checkAndIncrementUsage e t os organizationId ty amount = Inr (None, os')
               \<and> find_organization os' organizationId = Some g'
               \<and> g' = increment_currentField ty amount g
               \<and> currentField ty g' = currentField ty g + amount
               \<and> (amount \<le> 1 \<longrightarrow> currentField ty g' \<le> maxField ty g')"
      using r f by simp
  qed
  have c: "reset_due e t ty g \<longrightarrow>
            (\<exists>os'. checkAndIncrementUsage e t os organizationId ty amount = Inr (None, os')
               \<and> find_organization os' organizationId
                   = Some (g\<lparr>org_currentAiQueries := amount, org_aiQueriesResetAt := t\<rparr>))"
  proof
    assume h: "reset_due e t ty g"
    then have ty: "ty = AiQueries" by (simp add: reset_due_def)
    let ?f = "\<lambda>g. g\<lparr>org_currentAiQueries := 0, org_aiQueriesResetAt := t\<rparr>"
    let ?os' = "update_organization (update_organization os organizationId ?f)
                  organizationId (increment_currentField ty amount)"
    have r: "checkAndIncrementUsage e t os organizationId ty amount = Inr (None, ?os')"
      using checkAndIncrementUsage_reset [OF found h] .
    have f: "find_organization ?os' organizationId
               = Some (g\<lparr>org_currentAiQueries := amount, org_aiQueriesResetAt := t\<rparr>)"
      using found oid ty by (simp add: find_organization_update)
    show "\<exists>os'. checkAndIncrementUsage e t os organizationId ty amount = Inr (None, os')
               \<and> find_organization os' organizationId
                   = Some (g\<lparr>org_currentAiQueries := amount, org_aiQueriesResetAt := t\<rparr>)"
      using r f by blast
  qed
  show ?thesis using a b c by blast
qed

theorem checkAndIncrementUsage_effect_witness:
  "(\<exists>os'. checkAndIncrementUsage demo_env 0 [acme] ''o1'' Users 1 = Inr (None, os')
        \<and> find_organization os' ''o1'' = Some (acme\<lparr>org_currentUsers := 10\<rparr>))
   \<and> checkAndIncrementUsage demo_env 0 [acme] ''o1'' Patients 1
        = Inr (Some (errorResponse (UsageLimitExceeded 50 50) 403 None), [acme])"
proof -
  have u: "\<not> reset_due demo_env 0 Users acme \<and> currentField Users acme < maxField Users acme"
    by (simp add: reset_due_def acme_def)
  have p: "\<not> reset_due demo_env 0 Patients acme
           \<and> currentField Patients acme \<ge> maxField Patients acme"
    by (simp add: reset_due_def acme_def)
  have i: "increment_currentField Users 1 acme = acme\<lparr>org_currentUsers := 10\<rparr>"
    by (simp add: acme_def)
  have c: "currentField Patients acme = 50 \<and> maxField Patients acme = 50"
    by (simp add: acme_def)
  show ?thesis
    using checkAndIncrementUsage_effect [OF find_acme, of demo_env 0 Users 1] u i
          checkAndIncrementUsage_effect [OF find_acme, of demo_env 0 Patients 1] p c
    by auto
qed

text \<open>
  Two calls that the claim as stated excludes. With 9 of 10 users and \<open>amount = 5\<close> the call
  passes and leaves the counter at 14, above the maximum. With 100 of 100 AI queries and
  a reset date in the month before, the call does not fail: it passes and leaves the
  counter at 1.
\<close>

theorem checkAndIncrementUsage_counterexample:
  "checkAndIncrementUsage demo_env 0 [acme] ''o1'' Users 5
     = Inr (None, [acme\<lparr>org_currentUsers := 14\<rparr>])
   \<and> org_currentUsers acme < org_maxUsers acme \<and> org_maxUsers acme < 14
   \<and> checkAndIncrementUsage demo_env 1706745600000 [acme] ''o1'' AiQueries 1
     = Inr (None, [acme\<lparr>org_currentAiQueries := 1, org_aiQueriesResetAt := 1706745600000\<rparr>])
   \<and> org_currentAiQueries acme = org_maxAiQueries acme"
proof -
  have a: "checkAndIncrementUsage demo_env 0 [acme] ''o1'' Users 5
             = Inr (None, [acme\<lparr>org_currentUsers := 14\<rparr>])"
    by (simp add: checkAndIncrementUsage_def checkUsageLimit_def incrementUsage_def
          find_organization_def update_organization_def acme_def)
  have m: "monthDiff demo_env 1706745600000 (org_aiQueriesResetAt acme) = 1"
    using monthDiff_demo by (simp add: acme_def)
  have b: "checkAndIncrementUsage demo_env 1706745600000 [acme] ''o1'' AiQueries 1
     = Inr (None, [acme\<lparr>org_currentAiQueries := 1, org_aiQueriesResetAt := 1706745600000\<rparr>])"
    using m find_acme
    by (simp add: checkAndIncrementUsage_def checkUsageLimit_def incrementUsage_def
          find_organization_def update_organization_def)
       (simp add: acme_def)
  show ?thesis using a b by (simp add: acme_def)
qed

section \<open>Tokens\<close>

text \<open>
  Claim C10. For every token, and whatever jsonwebtoken's \<^verbatim>\<open>verify\<close> does with it,
  \<^verbatim>\<open>verifyAccessToken\<close> returns and does not throw: the decoded payload when \<^verbatim>\<open>verify\<close>
  returns one, and \<^verbatim>\<open>null\<close> whenever \<^verbatim>\<open>verify\<close> throws, as it does for a malformed, a wrongly
  signed and an expired token.
\<close>

theorem verifyAccessToken_never_throws:
  "(\<exists>r. verifyAccessToken e t token = Inr r)
   \<and> verifyAccessToken e t token
       = Inr (case verify e token (JWT_SECRET e) t of Inl error \<Rightarrow> None | Inr decoded \<Rightarrow> Some decoded)"
  by (simp add: verifyAccessToken_def split: sum.splits)

section \<open>Sessions\<close>

lemma refresh_POST_invalid_session:
  assumes "js_or (cookie_refreshToken request) (body request) = Some refreshToken"
      and "refreshToken \<noteq> []"
      and "find_session_by_refreshToken (sessions w) refreshToken = Some s"
      and "\<not> session_isValid s"
  shows "refresh_POST e c w request = (errorResponse SessionInvalid 401 None, w)"
  using assms by (simp add: refresh_POST_def)

lemma refresh_POST_expired_valid:
  assumes "js_or (cookie_refreshToken request) (body request) = Some refreshToken"
      and "refreshToken \<noteq> []"
      and "find_session_by_refreshToken (sessions w) refreshToken = Some s"
      and "session_isValid s" and "session_expiresAt s < ctx_now c"
  shows "refresh_POST e c w request
           = (errorResponse SessionExpired 401 None,
              w\<lparr>sessions := update_session (sessions w) (session_id s)
                               (\<lambda>r. r\<lparr>session_isValid := False\<rparr>)\<rparr>)"
  using assms by (simp add: refresh_POST_def)

text \<open>
  Claim C3. For a session found by a non-empty refresh token (from the cookie, else
  from the body) whose \<^verbatim>\<open>expiresAt\<close> is before now, the refresh fails with status 401. If the
  session was still valid, every row with its id is marked invalid and nothing else
  changes; if it was already invalid, nothing changes. In both cases the session found by
  the token is afterwards the same row with \<^verbatim>\<open>isValid = false\<close>. A second refresh with the
  same token, at any time and in any environment, is rejected at the \<^verbatim>\<open>isValid\<close> check with
  status 401 and leaves the state as it is. The store is taken not to throw.
\<close>

theorem refresh_expired_session:
  assumes tok: "js_or (cookie_refreshToken request) (body request) = Some refreshToken"
      and nonempty: "refreshToken \<noteq> []"
      and found: "find_session_by_refreshToken (sessions w) refreshToken = Some s"
      and expired: "session_expiresAt s < ctx_now c"
      and tok2: "js_or (cookie_refreshToken request2) (body request2) = Some refreshToken"
  shows "\<exists>r1 w1. refresh_POST e c w request = (r1, w1) \<and> status r1 = 401
           \<and> w1 = (if session_isValid s
                   then w\<lparr>sessions := update_session (sessions w) (session_id s)
                                         (\<lambda>r. r\<lparr>session_isValid := False\<rparr>)\<rparr>
                   else w)
           \<and> find_session_by_refreshToken (sessions w1) refreshToken
               = Some (s\<lparr>session_isValid := False\<rparr>)
           \<and> refresh_POST e2 c2 w1 request2 = (errorResponse SessionInvalid 401 None, w1)"
proof (cases "session_isValid s")
  case True
  let ?w1 = "w\<lparr>sessions := update_session (sessions w) (session_id s)
                               (\<lambda>r. r\<lparr>session_isValid := False\<rparr>)\<rparr>"
  have r1: "refresh_POST e c w request = (errorResponse SessionExpired 401 None, ?w1)"
    using tok nonempty found True expired by (rule refresh_POST_expired_valid)
  have f1: "find_session_by_refreshToken (sessions ?w1) refreshToken
              = Some (s\<lparr>session_isValid := False\<rparr>)"
    using found by (simp add: find_session_update)
  have r2: "refresh_POST e2 c2 ?w1 request2 = (errorResponse SessionInvalid 401 None, ?w1)"
    using tok2 nonempty f1 by (rule refresh_POST_invalid_session) simp
  show ?thesis using r1 f1 r2 True by (simp add: errorResponse_def)
next
  case False
  have r1: "refresh_POST e c w request = (errorResponse SessionInvalid 401 None, w)"
    using tok nonempty found False by (rule refresh_POST_invalid_session)
  have s: "s\<lparr>session_isValid := False\<rparr> = s" using False by simp
  have r2: "refresh_POST e2 c2 w request2 = (errorResponse SessionInvalid 401 None, w)"
    using tok2 nonempty found False by (rule refresh_POST_invalid_session)
  show ?thesis using r1 r2 found s False by (simp add: errorResponse_def)
qed

theorem refresh_expired_session_witness:
  "\<exists>r1 w1. refresh_POST demo_env (demo_ctx 2000) demo_world (refresh_request ''refresh-1'') = (r1, w1)
      \<and> status r1 = 401
      \<and> find_session_by_refreshToken (sessions w1) ''refresh-1''
          = Some ((alice_session ''s1'' ''refresh-1'' 1000)\<lparr>session_isValid := False\<rparr>)
      \<and> refresh_POST demo_env (demo_ctx 3000) w1 (refresh_request ''refresh-1'')
          = (errorResponse SessionInvalid 401 None, w1)"
proof -
  have t: "js_or (cookie_refreshToken (refresh_request ''refresh-1''))
             (body (refresh_request ''refresh-1'')) = Some ''refresh-1''"
    by (simp add: refresh_request_def demo_request_def js_or_def truthy_def)
  have n: "''refresh-1'' \<noteq> []" by simp
  have f: "find_session_by_refreshToken (sessions demo_world) ''refresh-1''
             = Some (alice_session ''s1'' ''refresh-1'' 1000)"
    by (simp add: find_session_by_refreshToken_def demo_world_def alice_session_def)
  have x: "session_expiresAt (alice_session ''s1'' ''refresh-1'' 1000) < ctx_now (demo_ctx 2000)"
    by (simp add: alice_session_def demo_ctx_def)
  show ?thesis
    using refresh_expired_session [OF t n f x t, of demo_env demo_env "demo_ctx 3000"]
    by blast
qed

lemma requireAuth_error_status:
  "requireAuth e c w request = Inl r \<Longrightarrow> status r = 401"
  by (auto simp: requireAuth_def errorResponse_def split: option.splits sum.splits if_splits)

lemma validateRequest_error_status:
  "validateRequest b = Inl r \<Longrightarrow> status r = 400"
  by (auto simp: validateRequest_def errorResponse_def split: parsed.splits)

lemma change_password_POST_success:
  assumes "change_password_POST e c w request = (r, w')" and "status r = 200"
  shows "\<exists>au. requireAuth e c w request = Inr au
           \<and> sessions w' = updateMany_sessions (sessions w)
                 (\<lambda>s. session_userId s = au_id au \<and> session_isValid s
                      \<and> session_refreshToken s \<noteq> js_or_default (cookie_refreshToken request) [])
                 (\<lambda>s. s\<lparr>session_isValid := False\<rparr>)"
  using assms
  by (auto simp: change_password_POST_def errorResponse_def successResponse_def
           split: sum.splits option.splits if_splits
           dest: requireAuth_error_status validateRequest_error_status)

text \<open>
  Claim C7. A change-password request that succeeds (status 200) was authenticated as
  some user, and its only effect on the sessions is this: every session of that user
  that is valid and whose refresh token differs from the request's \<^verbatim>\<open>refreshToken\<close> cookie
  becomes invalid and is otherwise unchanged. A session whose refresh token is that of
  the cookie, a session of another user and a session that was already invalid are
  unchanged. The code compares with \<^verbatim>\<open>currentRefreshToken || ''\<close>: without a cookie, with the
  empty string.
\<close>

theorem change_password_invalidates_other_sessions:
  assumes "change_password_POST e c w request = (r, w')" and "status r = 200"
  shows "\<exists>au. requireAuth e c w request = Inr au
           \<and> length (sessions w') = length (sessions w)
           \<and> (\<forall>i < length (sessions w).
                 (session_userId (sessions w ! i) = au_id au \<and> session_isValid (sessions w ! i)
                    \<and> session_refreshToken (sessions w ! i)
                        \<noteq> js_or_default (cookie_refreshToken request) []
                  \<longrightarrow> sessions w' ! i = (sessions w ! i)\<lparr>session_isValid := False\<rparr>)
               \<and> (session_refreshToken (sessions w ! i)
                        = js_or_default (cookie_refreshToken request) []
                  \<longrightarrow> sessions w' ! i = sessions w ! i)
               \<and> (session_userId (sessions w ! i) \<noteq> au_id au
                  \<longrightarrow> sessions w' ! i = sessions w ! i)
               \<and> (\<not> session_isValid (sessions w ! i)
                  \<longrightarrow> sessions w' ! i = sessions w ! i))"
proof -
  obtain au where au: "requireAuth e c w request = Inr au"
    and ss: "sessions w' = updateMany_sessions (sessions w)
                 (\<lambda>s. session_userId s = au_id au \<and> session_isValid s
                      \<and> session_refreshToken s \<noteq> js_or_default (cookie_refreshToken request) [])
                 (\<lambda>s. s\<lparr>session_isValid := False\<rparr>)"
    using change_password_POST_success [OF assms] by blast
  show ?thesis
    using au by (simp add: ss updateMany_sessions_def)
qed

theorem change_password_invalidates_other_sessions_witness:
  "\<exists>r w'. change_password_POST demo_env (demo_ctx 0) demo_world change_password_request = (r, w')
      \<and> status r = 200
      \<and> sessions w' ! 0 = (sessions demo_world ! 0)\<lparr>session_isValid := False\<rparr>
      \<and> sessions w' ! 1 = sessions demo_world ! 1"
proof -
  let ?p = "change_password_POST demo_env (demo_ctx 0) demo_world change_password_request"
  have eq: "?p = (fst ?p, snd ?p)" by simp
  have st: "status (fst ?p) = 200"
    by (simp add: change_password_POST_def requireAuth_def change_password_request_def
          validateRequest_def js_or_def truthy_def bearerToken_def demo_verify_def JWT_SECRET_def
          find_user_by_id_def successResponse_def demo_defs)
  have au: "requireAuth demo_env (demo_ctx 0) demo_world change_password_request
              = Inr \<lparr>au_id = ''u1'', au_email = ''alice@example.com'', au_role = ''DIETITIAN'',
                     au_organizationId = ''o1''\<rparr>"
    by (simp add: requireAuth_def change_password_request_def
          js_or_def truthy_def bearerToken_def demo_verify_def JWT_SECRET_def
          find_user_by_id_def demo_defs)
  have s0: "session_userId (sessions demo_world ! 0) = ''u1''
            \<and> session_isValid (sessions demo_world ! 0)
            \<and> session_refreshToken (sessions demo_world ! 0)
                \<noteq> js_or_default (cookie_refreshToken change_password_request) []"
    by (simp add: demo_world_def alice_session_def change_password_request_def demo_request_def
          js_or_default_def)
  have s1: "session_refreshToken (sessions demo_world ! 1)
              = js_or_default (cookie_refreshToken change_password_request) []"
    by (simp add: demo_world_def alice_session_def change_password_request_def demo_request_def
          js_or_default_def)
  have len: "length (sessions demo_world) = 2" by (simp add: demo_world_def)
  obtain au' where r: "requireAuth demo_env (demo_ctx 0) demo_world change_password_request
                         = Inr au'"
    and all: "\<forall>i < length (sessions demo_world).
                 (session_userId (sessions demo_world ! i) = au_id au'
                    \<and> session_isValid (sessions demo_world ! i)
                    \<and> session_refreshToken (sessions demo_world ! i)
                        \<noteq> js_or_default (cookie_refreshToken change_password_request) []
                  \<longrightarrow> sessions (snd ?p) ! i = (sessions demo_world ! i)\<lparr>session_isValid := False\<rparr>)
               \<and> (session_refreshToken (sessions demo_world ! i)
                        = js_or_default (cookie_refreshToken change_password_request) []
                  \<longrightarrow> sessions (snd ?p) ! i = sessions demo_world ! i)
               \<and> (session_userId (sessions demo_world ! i) \<noteq> au_id au'
                  \<longrightarrow> sessions (snd ?p) ! i = sessions demo_world ! i)
               \<and> (\<not> session_isValid (sessions demo_world ! i)
                  \<longrightarrow> sessions (snd ?p) ! i = sessions demo_world ! i)"
    using change_password_invalidates_other_sessions [OF eq st] by blast
  have "au' = \<lparr>au_id = ''u1'', au_email = ''alice@example.com'', au_role = ''DIETITIAN'',
                     au_organizationId = ''o1''\<rparr>"
    using r au by simp
  then have id: "au_id au' = ''u1''" by simp
  have i0: "sessions (snd ?p) ! 0 = (sessions demo_world ! 0)\<lparr>session_isValid := False\<rparr>"
    using all s0 len id by simp
  have i1: "sessions (snd ?p) ! 1 = sessions demo_world ! 1"
    using all s1 len by simp
  show ?thesis using eq st i0 i1 by blast
qed

section \<open>Forgot password\<close>

lemma forgot_password_POST_response:
  assumes "applyRateLimit (rateLimitStore w) (ctx_now c)
             (''forgot-password:'' @ js_or_default (header_x_forwarded_for request) ''anonymous'')
             3 (60 * 60 * 1000) = (None, store')"
      and "body request = Valid d"
  shows "fst (forgot_password_POST c throws w request)
           = successResponse (MessageData ResetLinkSentIfRegistered) 200"
  using assms
  by (simp add: forgot_password_POST_def validateRequest_def Let_def split: option.splits)

text \<open>
  Claim C8. A forgot-password request that passes the rate limiter and the validation
  is answered with status 200 and the one generic message, whatever the store holds
  (no user with that address, an inactive one, an active one) and whichever store call
  throws. Hence two such requests get the same response, whether or not their addresses
  are registered.
\<close>

theorem forgot_password_generic_response:
  assumes "applyRateLimit (rateLimitStore w) (ctx_now c)
             (''forgot-password:'' @ login_ip request) 3 (60 * 60 * 1000) = (None, store)"
      and "body request = Valid d"
      and "applyRateLimit (rateLimitStore w') (ctx_now c')
             (''forgot-password:'' @ login_ip request') 3 (60 * 60 * 1000) = (None, store')"
      and "body request' = Valid d'"
  shows "fst (forgot_password_POST c throws w request)
           = successResponse (MessageData ResetLinkSentIfRegistered) 200
       \<and> fst (forgot_password_POST c throws w request)
           = fst (forgot_password_POST c' throws' w' request')"
  using forgot_password_POST_response [OF assms(1) [unfolded login_ip_def] assms(2)]
        forgot_password_POST_response [OF assms(3) [unfolded login_ip_def] assms(4)]
  by simp

theorem forgot_password_generic_response_witness:
  "fst (forgot_password_POST (demo_ctx 0) (\<lambda>k. False) demo_world
          (forgot_password_request ''alice@example.com''))
     = successResponse (MessageData ResetLinkSentIfRegistered) 200
   \<and> fst (forgot_password_POST (demo_ctx 0) (\<lambda>k. False) demo_world
          (forgot_password_request ''alice@example.com''))
     = fst (forgot_password_POST (demo_ctx 0) (\<lambda>k. k = 1) demo_world
          (forgot_password_request ''nobody@example.com''))
   \<and> user_resetPasswordToken
        (hd (users (snd (forgot_password_POST (demo_ctx 0) (\<lambda>k. False) demo_world
                           (forgot_password_request ''alice@example.com'')))))
     = Some ''fresh-token''"
proof -
  have gate: "\<And>e. applyRateLimit (rateLimitStore demo_world) (ctx_now (demo_ctx 0))
             (''forgot-password:'' @ login_ip (forgot_password_request e)) 3 (60 * 60 * 1000)
           = (None, (\<lambda>k. None)(''forgot-password:1.2.3.4'' \<mapsto> \<lparr>count = 1, resetAt = 3600000\<rparr>))"
    by (simp add: applyRateLimit_def rateLimit_def demo_world_def demo_ctx_def login_ip_def
          forgot_password_request_def demo_request_def js_or_default_def)
  have valid: "\<And>e. body (forgot_password_request e) = Valid \<lparr>fp_email = e\<rparr>"
    by (simp add: forgot_password_request_def demo_request_def)
  have tok: "user_resetPasswordToken
        (hd (users (snd (forgot_password_POST (demo_ctx 0) (\<lambda>k. False) demo_world
                           (forgot_password_request ''alice@example.com'')))))
     = Some ''fresh-token''"
    by (simp add: forgot_password_POST_def forgot_password_request_def applyRateLimit_def
          rateLimit_def validateRequest_def find_user_by_email_def update_user_def
          js_or_default_def Let_def demo_defs)
  show ?thesis
    using forgot_password_generic_response
            [OF gate [of "''alice@example.com''"] valid gate [of "''nobody@example.com''"] valid,
             where throws = "\<lambda>k. False" and throws' = "\<lambda>k. k = 1"] tok
    by blast
qed

section \<open>Login: the lockout\<close>

lemma login_try_locked:
  assumes "find_user_by_email (users w) (ld_email d) = Some u"
      and "user_lockedUntil u = Some l" and "ctx_now c < l"
  shows "login_try e c w ip ua d = (locked_rejection l (ctx_now c), w)"
  using assms by (simp add: login_try_def account_locked_def locked_rejection_def)

lemma wrong_password_response_error:
  "wrong_password_response (errorResponse m st x)
     = (case m of InvalidEmailOrPasswordRemaining n \<Rightarrow> True | TooManyFailedAttempts \<Rightarrow> True
        | _ \<Rightarrow> False)"
  by (simp add: wrong_password_response_def errorResponse_def)

lemma login_issue_not_wrong_password:
  "login_issue e c w d u g = (r, w') \<Longrightarrow> \<not> wrong_password_response r"
  by (auto simp: login_issue_def Let_def wrong_password_response_def errorResponse_def
           split: sum.splits option.splits)

lemma login_try_wrong_password:
  assumes "login_try e c w ip ua d = (r, w')" and "wrong_password_response r"
      and "find_user_by_email (users w) (ld_email d) = Some u"
  shows "login_password_invalid c w ip ua u = (r, w') \<and> account_locked (ctx_now c) u = None"
  using assms
  by (auto simp: login_try_def wrong_password_response_error
           split: option.splits if_splits sum.splits bool.splits
           dest: login_issue_not_wrong_password)

lemma login_password_invalid_effect:
  assumes "find_user_by_email (users w) em = Some u"
      and "login_password_invalid c w ip ua u = (r, w')"
  shows "find_user_by_email (users w') em = Some (failed_update (ctx_now c) u)
       \<and> r = (if user_failedLoginAttempts u + 1 \<ge> MAX_LOGIN_ATTEMPTS
              then errorResponse TooManyFailedAttempts 403 None
              else errorResponse (InvalidEmailOrPasswordRemaining
                     (MAX_LOGIN_ATTEMPTS - (user_failedLoginAttempts u + 1))) 401 None)
       \<and> sessions w' = sessions w \<and> organizations w' = organizations w"
proof -
  have i: "user_id u = user_id u" by simp
  show ?thesis
    using assms
    by (auto simp: login_password_invalid_def Let_def find_user_by_email_update failed_update_def)
qed

lemma login_POST_cases:
  assumes "login_POST e c w request = (r, w')"
  obtains (limited) store' where
      "applyRateLimit (rateLimitStore w) (ctx_now c) (''login:'' @ login_ip request) 10 (60 * 1000)
         = (Some r, store')" "w' = w\<lparr>rateLimitStore := store'\<rparr>"
      "r = errorResponse RateLimitExceeded 429 None"
    | (invalid) store' where
      "applyRateLimit (rateLimitStore w) (ctx_now c) (''login:'' @ login_ip request) 10 (60 * 1000)
         = (None, store')" "validateRequest (body request) = Inl r"
      "w' = w\<lparr>rateLimitStore := store'\<rparr>" "status r = 400"
    | (attempt) store' d where
      "applyRateLimit (rateLimitStore w) (ctx_now c) (''login:'' @ login_ip request) 10 (60 * 1000)
         = (None, store')" "body request = Valid d"
      "login_try e c (w\<lparr>rateLimitStore := store'\<rparr>) (login_ip request)
         (header_user_agent request) d = (r, w')"
proof -
  obtain x store' where a: "applyRateLimit (rateLimitStore w) (ctx_now c)
      (''login:'' @ login_ip request) 10 (60 * 1000) = (x, store')"
    by (cases "applyRateLimit (rateLimitStore w) (ctx_now c)
      (''login:'' @ login_ip request) 10 (60 * 1000)")
  show thesis
  proof (cases x)
    case (Some r')
    then have "r = r'" "w' = w\<lparr>rateLimitStore := store'\<rparr>"
      using assms a by (simp_all add: login_POST_def login_ip_def)
    moreover have "r' = errorResponse RateLimitExceeded 429 None"
      using a Some by (auto simp: applyRateLimit_def split: prod.splits if_splits)
    ultimately show ?thesis using limited a Some by simp
  next
    case None
    show ?thesis
    proof (cases "body request")
      case (Valid d)
      then show ?thesis
        using assms a None attempt by (simp add: login_POST_def login_ip_def validateRequest_def)
    next
      case (ZodError x)
      then have v: "validateRequest (body request) = Inl (errorResponse ValidationError 400 (Some x))"
        by (simp add: validateRequest_def)
      then have "r = errorResponse ValidationError 400 (Some x)" "w' = w\<lparr>rateLimitStore := store'\<rparr>"
        using assms a None by (simp_all add: login_POST_def login_ip_def)
      then show ?thesis
        using a None v invalid [of store'] by (simp add: errorResponse_def)
    next
      case NotJson
      then have v: "validateRequest (body request) = Inl (errorResponse InvalidRequestBody 400 None)"
        by (simp add: validateRequest_def)
      then have "r = errorResponse InvalidRequestBody 400 None" "w' = w\<lparr>rateLimitStore := store'\<rparr>"
        using assms a None by (simp_all add: login_POST_def login_ip_def)
      then show ?thesis
        using a None v invalid [of store'] by (simp add: errorResponse_def)
    qed
  qed
qed

lemma validateRequest_Valid: "validateRequest (Valid d) = Inr d"
  by (simp add: validateRequest_def)

lemma login_POST_wrong_password:
  assumes "login_POST e c w request = (r, w')" and "wrong_password_response r"
      and "body request = Valid d"
      and "find_user_by_email (users w) (ld_email d) = Some u"
  shows "find_user_by_email (users w') (ld_email d) = Some (failed_update (ctx_now c) u)
       \<and> r = (if user_failedLoginAttempts u + 1 \<ge> MAX_LOGIN_ATTEMPTS
              then errorResponse TooManyFailedAttempts 403 None
              else errorResponse (InvalidEmailOrPasswordRemaining
                     (MAX_LOGIN_ATTEMPTS - (user_failedLoginAttempts u + 1))) 401 None)"
  using assms(1)
proof (cases rule: login_POST_cases)
  case (limited store')
  then show ?thesis using assms(2) by (simp add: wrong_password_response_error)
next
  case (invalid store')
  then show ?thesis using assms(3) by (simp add: validateRequest_Valid)
next
  case (attempt store' d')
  then have d: "d' = d" using assms(3) by simp
  let ?w = "w\<lparr>rateLimitStore := store'\<rparr>"
  have f: "find_user_by_email (users ?w) (ld_email d) = Some u" using assms(4) by simp
  have "login_password_invalid c ?w (login_ip request) (header_user_agent request) u = (r, w')"
    using login_try_wrong_password [OF attempt(3) [unfolded d] assms(2) f] by simp
  then show ?thesis
    using login_password_invalid_effect [OF f] by blast
qed

lemma failed_update_counter:
  "user_failedLoginAttempts (failed_update t u) = user_failedLoginAttempts u + 1"
  by (simp add: failed_update_def)

lemma failed_update_lock:
  "user_failedLoginAttempts u + 1 \<ge> MAX_LOGIN_ATTEMPTS
   \<Longrightarrow> user_lockedUntil (failed_update t u) = Some (t + LOCK_DURATION)"
  by (simp add: failed_update_def)

lemma login_run_wrong_passwords:
  assumes "login_run e w reqs = (rs, w')" and "reqs \<noteq> []"
      and "\<forall>r\<in>set rs. wrong_password_response r"
      and "\<forall>(c, request)\<in>set reqs. \<exists>d. body request = Valid d \<and> ld_email d = em"
      and "find_user_by_email (users w) em = Some u"
  shows "\<exists>u'. find_user_by_email (users w') em = Some u'
           \<and> user_failedLoginAttempts u' = user_failedLoginAttempts u + int (length reqs)
           \<and> (user_failedLoginAttempts u' \<ge> MAX_LOGIN_ATTEMPTS \<longrightarrow>
                user_lockedUntil u' = Some (ctx_now (fst (last reqs)) + LOCK_DURATION)
                \<and> last rs = errorResponse TooManyFailedAttempts 403 None)"
  using assms
proof (induction reqs arbitrary: w rs u)
  case Nil
  then show ?case by simp
next
  case (Cons a rest)
  obtain c request where a: "a = (c, request)" by (cases a)
  obtain r w1 where step: "login_POST e c w request = (r, w1)"
    by (cases "login_POST e c w request")
  obtain rs1 where run: "login_run e w1 rest = (rs1, w')" and rs: "rs = r # rs1"
    using Cons.prems(1) a step by (auto split: prod.splits)
  obtain d where d: "body request = Valid d" "ld_email d = em"
    using Cons.prems(4) a by auto
  have wr: "wrong_password_response r" using Cons.prems(3) rs by simp
  have f: "find_user_by_email (users w) (ld_email d) = Some u" using Cons.prems(5) d by simp
  note eff = login_POST_wrong_password [OF step wr d(1) f]
  let ?u1 = "failed_update (ctx_now c) u"
  have f1: "find_user_by_email (users w1) em = Some ?u1" using eff d by simp
  show ?case
  proof (cases "rest = []")
    case True
    then have "w' = w1" "rs1 = []" using run by simp_all
    then show ?thesis
      using f1 eff True a rs
      by (auto simp: failed_update_counter failed_update_lock)
  next
    case False
    have p3: "\<forall>r\<in>set rs1. wrong_password_response r" using Cons.prems(3) rs by simp
    have p4: "\<forall>(c, request)\<in>set rest. \<exists>d. body request = Valid d \<and> ld_email d = em"
      using Cons.prems(4) by simp
    obtain u' where u': "find_user_by_email (users w') em = Some u'"
      "user_failedLoginAttempts u' = user_failedLoginAttempts ?u1 + int (length rest)"
      "user_failedLoginAttempts u' \<ge> MAX_LOGIN_ATTEMPTS \<longrightarrow>
                user_lockedUntil u' = Some (ctx_now (fst (last rest)) + LOCK_DURATION)
                \<and> last rs1 = errorResponse TooManyFailedAttempts 403 None"
      using Cons.IH [OF run False p3 p4 f1] by blast
    have "rs1 \<noteq> []" using run False by (cases rest) (auto split: prod.splits)
    then show ?thesis
      using u' False rs by (auto simp: failed_update_counter)
  qed
qed

lemma login_POST_locked:
  assumes "login_POST e c w request = (r, w')"
      and "find_user_by_email (users w) em = Some u"
      and "user_lockedUntil u = Some l" and "ctx_now c < l"
      and "\<forall>d. body request = Valid d \<longrightarrow> ld_email d = em"
  shows "users w' = users w \<and> sessions w' = sessions w \<and> securityLog w' = securityLog w
       \<and> organizations w' = organizations w \<and> adminAuditLog w' = adminAuditLog w
       \<and> (gate_rejection r \<or> r = locked_rejection l (ctx_now c))"
  using assms(1)
proof (cases rule: login_POST_cases)
  case (limited store')
  then show ?thesis by (simp add: gate_rejection_def errorResponse_def)
next
  case (invalid store')
  then show ?thesis by (simp add: gate_rejection_def)
next
  case (attempt store' d)
  let ?w = "w\<lparr>rateLimitStore := store'\<rparr>"
  have "find_user_by_email (users ?w) (ld_email d) = Some u"
    using assms(2,5) attempt(2) by simp
  then have "login_try e c ?w (login_ip request) (header_user_agent request) d
               = (locked_rejection l (ctx_now c), ?w)"
    using assms(3,4) by (rule login_try_locked)
  then show ?thesis using attempt(3) by auto
qed

lemma login_run_locked:
  assumes "login_run e w reqs = (rs, w')"
      and "find_user_by_email (users w) em = Some u"
      and "user_lockedUntil u = Some l"
      and "\<forall>(c, request)\<in>set reqs.
             ctx_now c < l \<and> (\<forall>d. body request = Valid d \<longrightarrow> ld_email d = em)"
  shows "users w' = users w \<and> sessions w' = sessions w \<and> securityLog w' = securityLog w
       \<and> list_all2 (\<lambda>(c, request) r. gate_rejection r \<or> r = locked_rejection l (ctx_now c))
             reqs rs"
  using assms
proof (induction reqs arbitrary: w rs)
  case Nil
  then show ?case by simp
next
  case (Cons a rest)
  obtain c request where a: "a = (c, request)" by (cases a)
  obtain r w1 where step: "login_POST e c w request = (r, w1)"
    by (cases "login_POST e c w request")
  obtain rs1 where run: "login_run e w1 rest = (rs1, w')" and rs: "rs = r # rs1"
    using Cons.prems(1) a step by (auto split: prod.splits)
  have h: "ctx_now c < l" "\<forall>d. body request = Valid d \<longrightarrow> ld_email d = em"
    using Cons.prems(4) a by auto
  note eff = login_POST_locked [OF step Cons.prems(2,3) h]
  have f1: "find_user_by_email (users w1) em = Some u" using eff Cons.prems(2) by simp
  have p4: "\<forall>(c, request)\<in>set rest.
             ctx_now c < l \<and> (\<forall>d. body request = Valid d \<longrightarrow> ld_email d = em)"
    using Cons.prems(4) by simp
  note ih = Cons.IH [OF run f1 Cons.prems(3) p4]
  show ?case using eff ih a rs by simp
qed

lemma login_POST_attempt_locked:
  assumes "find_user_by_email (users w) em = Some u" and "user_lockedUntil u = Some l"
      and "ctx_now c < l"
      and "applyRateLimit (rateLimitStore w) (ctx_now c) (''login:'' @ login_ip request) 10
             (60 * 1000) = (None, store')"
      and "body request = Valid d" and "ld_email d = em"
  shows "login_POST e c w request = (locked_rejection l (ctx_now c), w\<lparr>rateLimitStore := store'\<rparr>)"
proof -
  let ?w = "w\<lparr>rateLimitStore := store'\<rparr>"
  have "find_user_by_email (users ?w) (ld_email d) = Some u" using assms(1,6) by simp
  then have "login_try e c ?w (login_ip request) (header_user_agent request) d
               = (locked_rejection l (ctx_now c), ?w)"
    using assms(2,3) by (rule login_try_locked)
  then show ?thesis
    using assms(4,5) by (simp add: login_POST_def login_ip_def validateRequest_Valid)
qed

text \<open>
  Claim C1, amended. Take five consecutive login requests for the address of a user
  whose failure counter is 0, each answered as a wrong password (so each has passed the
  rate limiter, the validation and the lock check). After them the counter is 5, the
  account is locked until 15 minutes after the fifth request, and the fifth response is
  the 403 that announces the lock. From then on every login request for that address
  made while the lock end is in the future, whatever its password and whatever
  \<^verbatim>\<open>compare\<close> would say about it, leaves the users, the sessions and the security log as
  they are, and is answered either by the rate limiter (429) or the validation (400),
  or with 403 and the minutes that remain, rounded up. In particular such a request
  that passes the rate limiter and the validation gets that 403 and changes nothing but
  the rate limiter's record. The login handler counts every request against its limit of
  10 per minute and address before it looks at the account, so a locked account's
  requests can be answered 429 instead of 403.
\<close>

theorem login_lockout:
  assumes five: "login_run e w0 attempts = (rs, w5)" and n: "length attempts = 5"
      and wrong: "\<forall>r\<in>set rs. wrong_password_response r"
      and target: "\<forall>(c, request)\<in>set attempts. \<exists>d. body request = Valid d \<and> ld_email d = em"
      and user: "find_user_by_email (users w0) em = Some u0"
      and fresh: "user_failedLoginAttempts u0 = 0"
      and l: "l = ctx_now (fst (last attempts)) + LOCK_DURATION"
      and later: "\<forall>(c, request)\<in>set later.
                    ctx_now c < l \<and> (\<forall>d. body request = Valid d \<longrightarrow> ld_email d = em)"
      and run: "login_run e' w5 later = (rs', w')"
  shows "\<exists>u5. find_user_by_email (users w5) em = Some u5
           \<and> user_failedLoginAttempts u5 = 5 \<and> user_lockedUntil u5 = Some l
           \<and> last rs = errorResponse TooManyFailedAttempts 403 None
           \<and> users w' = users w5 \<and> sessions w' = sessions w5 \<and> securityLog w' = securityLog w5
           \<and> list_all2 (\<lambda>(c, request) r. gate_rejection r \<or> r = locked_rejection l (ctx_now c))
                 later rs'
           \<and> (\<forall>e'' c request store' d.
                 ctx_now c < l
                 \<and> applyRateLimit (rateLimitStore w') (ctx_now c) (''login:'' @ login_ip request)
                      10 (60 * 1000) = (None, store')
                 \<and> body request = Valid d \<and> ld_email d = em
                 \<longrightarrow> login_POST e'' c w' request
                       = (locked_rejection l (ctx_now c), w'\<lparr>rateLimitStore := store'\<rparr>))"
proof -
  have ne: "attempts \<noteq> []" using n by auto
  obtain u5 where u5: "find_user_by_email (users w5) em = Some u5"
      "user_failedLoginAttempts u5 = user_failedLoginAttempts u0 + int (length attempts)"
      "user_failedLoginAttempts u5 \<ge> MAX_LOGIN_ATTEMPTS \<longrightarrow>
         user_lockedUntil u5 = Some (ctx_now (fst (last attempts)) + LOCK_DURATION)
         \<and> last rs = errorResponse TooManyFailedAttempts 403 None"
    using login_run_wrong_passwords [OF five ne wrong target user] by blast
  have c5: "user_failedLoginAttempts u5 = 5" using u5(2) fresh n by simp
  then have lk: "user_lockedUntil u5 = Some l"
    and lr: "last rs = errorResponse TooManyFailedAttempts 403 None"
    using u5(3) l by (simp_all add: MAX_LOGIN_ATTEMPTS_def)
  note lockd = login_run_locked [OF run u5(1) lk later]
  have f': "find_user_by_email (users w') em = Some u5" using lockd u5(1) by simp
  have single: "\<forall>e'' c request store' d.
                 ctx_now c < l
                 \<and> applyRateLimit (rateLimitStore w') (ctx_now c) (''login:'' @ login_ip request)
                      10 (60 * 1000) = (None, store')
                 \<and> body request = Valid d \<and> ld_email d = em
                 \<longrightarrow> login_POST e'' c w' request
                       = (locked_rejection l (ctx_now c), w'\<lparr>rateLimitStore := store'\<rparr>)"
    using login_POST_attempt_locked [OF f' lk] by blast
  show ?thesis using u5(1) c5 lk lr lockd single by blast
qed

lemma run5:
  "login_run demo_env demo_world wrong_attempts
     = ([errorResponse (InvalidEmailOrPasswordRemaining 4) 401 None,
         errorResponse (InvalidEmailOrPasswordRemaining 3) 401 None,
         errorResponse (InvalidEmailOrPasswordRemaining 2) 401 None,
         errorResponse (InvalidEmailOrPasswordRemaining 1) 401 None,
         errorResponse TooManyFailedAttempts 403 None],
        snd (login_run demo_env demo_world wrong_attempts))"
  by (simp add: wrong_attempts_def demo_defs login_defs Let_def)

theorem login_lockout_witness:
  "\<exists>u5. find_user_by_email (users (snd (login_run demo_env demo_world wrong_attempts)))
           ''alice@example.com'' = Some u5
       \<and> user_failedLoginAttempts u5 = 5 \<and> user_lockedUntil u5 = Some 904000
       \<and> list_all2 (\<lambda>(c, request) r. gate_rejection r \<or> r = locked_rejection 904000 (ctx_now c))
            (take 3 locked_attempts)
            (fst (login_run demo_env (snd (login_run demo_env demo_world wrong_attempts))
                    (take 3 locked_attempts)))"
proof -
  let ?w5 = "snd (login_run demo_env demo_world wrong_attempts)"
  let ?later = "take 3 locked_attempts"
  have n: "length wrong_attempts = 5" by (simp add: wrong_attempts_def)
  have wrong: "\<forall>r\<in>set [errorResponse (InvalidEmailOrPasswordRemaining 4) 401 None,
         errorResponse (InvalidEmailOrPasswordRemaining 3) 401 None,
         errorResponse (InvalidEmailOrPasswordRemaining 2) 401 None,
         errorResponse (InvalidEmailOrPasswordRemaining 1) 401 None,
         errorResponse TooManyFailedAttempts 403 None]. wrong_password_response r"
    by (simp add: wrong_password_response_error)
  have target: "\<forall>(c, request)\<in>set wrong_attempts.
                  \<exists>d. body request = Valid d \<and> ld_email d = ''alice@example.com''"
    by (simp add: wrong_attempts_def login_request_def demo_request_def)
  have user: "find_user_by_email (users demo_world) ''alice@example.com'' = Some alice"
    by (simp add: find_user_by_email_def demo_world_def alice_def)
  have fresh: "user_failedLoginAttempts alice = 0" by (simp add: alice_def)
  have l: "904000 = ctx_now (fst (last wrong_attempts)) + LOCK_DURATION"
    by (simp add: wrong_attempts_def demo_ctx_def LOCK_DURATION_def)
  have later: "\<forall>(c, request)\<in>set ?later.
       ctx_now c < 904000 \<and> (\<forall>d. body request = Valid d \<longrightarrow> ld_email d = ''alice@example.com'')"
    by (simp add: locked_attempts_def login_request_def demo_request_def demo_ctx_def)
  have run: "login_run demo_env ?w5 ?later
               = (fst (login_run demo_env ?w5 ?later), snd (login_run demo_env ?w5 ?later))"
    by simp
  show ?thesis
    using login_lockout [OF run5 n wrong target user fresh l later run] by blast
qed

text \<open>
  Eleven requests from one address within eleven seconds: five wrong passwords, then six
  with the right password while the account is locked until 904000. The eleventh is
  answered 429, not 403.
\<close>

theorem login_lockout_counterexample:
  "map status (fst (login_run demo_env demo_world (wrong_attempts @ locked_attempts)))
     = [401, 401, 401, 401, 403, 403, 403, 403, 403, 403, 429]
   \<and> map user_lockedUntil (users (snd (login_run demo_env demo_world
                                          (wrong_attempts @ locked_attempts))))
     = [Some 904000, None]"
  by (simp add: wrong_attempts_def locked_attempts_def demo_defs login_defs Let_def)

section \<open>Login: the reset of the lockout\<close>











lemma not_cleared_refl: "not_cleared u u"
  by (simp add: not_cleared_def)


lemma list_all2_not_cleared_update:
  assumes "\<And>u. not_cleared u (f u)"
  shows "list_all2 not_cleared us (update_user us i f)"
  by (simp add: update_user_def list_all2_map2 list_all2_same assms not_cleared_refl)
















end
